theory Spec2Isabelle
  imports Complex_Main "HOL-Library.Product_Lexorder" "HOL-Library.Sublist"
begin

section \<open>Python values\<close>

text \<open>
  Python \<open>str\<close> values are modelled as HOL strings whose characters are the code points
  below 256. Python \<open>float\<close> values are modelled as reals: the code under study only
  compares, divides and sorts them, a decimal literal such as \<open>0.8\<close> is the number it
  denotes, and no value is NaN. Exceptions are values of type \<open>exn\<close>; a function
  that may raise returns \<open>exn + 'a\<close> with \<open>Inl\<close> for the exception. The parameter
  \<open>processed_folder\<close> of the similarity analyzer is never read and is left out.
\<close>

datatype exn =
    KeyError
  | IndexError
  | ZeroDivisionError
  | AttributeError
  | ValueError
  | JSONDecodeError
  | LibraryError
  | WrappedException string exn

text \<open>\<open>str.isspace\<close> on the code points below 256.\<close>

definition py_isspace :: "char \<Rightarrow> bool" where
  "py_isspace c =
     (let n = (of_char c :: nat)
      in (9 \<le> n \<and> n \<le> 13) \<or> (28 \<le> n \<and> n \<le> 32) \<or> n = 133 \<or> n = 160)"

text \<open>\<open>str.strip()\<close>: leading and trailing whitespace removed.\<close>

definition py_strip :: "string \<Rightarrow> string" where
  "py_strip s = rev (dropWhile py_isspace (rev (dropWhile py_isspace s)))"

text \<open>
  \<open>str.split()\<close> without arguments: runs of whitespace separate the tokens, and no
  empty token is produced. \<open>cur\<close> is the token being read.
\<close>

fun split_acc :: "string \<Rightarrow> string \<Rightarrow> string list" where
  "split_acc cur [] = (if cur = [] then [] else [cur])"
| "split_acc cur (c # cs) =
     (if py_isspace c
      then (if cur = [] then [] else [cur]) @ split_acc [] cs
      else split_acc (cur @ [c]) cs)"

definition py_split :: "string \<Rightarrow> string list" where
  "py_split s = split_acc [] s"

text \<open>\<open>sorted(xs, key=f)\<close> is a stable sort; \<open>sorted(xs, key=f, reverse=True)\<close>
  reverses the list, sorts it stably and reverses the outcome, which keeps elements
  with equal keys in their original order.\<close>

definition py_sorted :: "('a \<Rightarrow> 'k::linorder) \<Rightarrow> 'a list \<Rightarrow> 'a list" where
  "py_sorted f xs = sort_key f xs"

definition py_sorted_reverse :: "('a \<Rightarrow> 'k::linorder) \<Rightarrow> 'a list \<Rightarrow> 'a list" where
  "py_sorted_reverse f xs = rev (sort_key f (rev xs))"

section \<open>similarity\_analyzer.py\<close>

subsection \<open>Data\<close>

text \<open>A section as persisted in a processed JSON file.\<close>

record stored_section =
  section_title :: string
  page_number :: int
  level :: string
  content :: string
  embedding :: "real list"
  section_text :: string

text \<open>A section after \<open>load_sections_with_embeddings\<close> has added the key
  \<open>document\<close> to it.\<close>

record loaded_section =
  document :: string
  sec :: stored_section

text \<open>The dictionaries appended to \<open>results\<close>.\<close>

record similarity_result =
  res_document :: string
  res_section_title :: string
  importance_rank :: int
  res_page_number :: int
  similarity_score :: real
  res_level :: string
  res_content :: string
  word_count :: nat

text \<open>An entry of \<open>processed_files\<close>, and what the path \<open>json_path\<close> holds on disk:
  nothing, a file that \<open>json.load\<close> rejects, or a JSON object with or without the key
  \<open>sections\<close>.\<close>

record file_info =
  json_path :: string
  original_file :: string

datatype json_file = JsonInvalid | JsonDoc "stored_section list option"

type_synonym disk = "string \<Rightarrow> json_file option"

text \<open>The sentence-transformer model and scikit-learn's \<open>cosine_similarity\<close> are
  external: both are parameters, and both may raise.\<close>

record engine =
  encode :: "string \<Rightarrow> exn + real list"
  cosine_similarity :: "real list \<Rightarrow> real list \<Rightarrow> exn + real"

subsection \<open>count\_words\<close>

definition count_words :: "string \<Rightarrow> nat" where
  "count_words text =
     (if text = [] then 0
      else length (map py_strip (filter (\<lambda>word. py_strip word \<noteq> []) (py_split text))))"

subsection \<open>load\_sections\_with\_embeddings\<close>

fun load_loop :: "disk \<Rightarrow> loaded_section list \<Rightarrow> file_info list \<Rightarrow> exn + loaded_section list" where
  "load_loop d sections [] = Inr sections"
| "load_loop d sections (fi # rest) =
     (case d (json_path fi) of
        None \<Rightarrow> load_loop d sections rest
      | Some JsonInvalid \<Rightarrow> Inl JSONDecodeError
      | Some (JsonDoc None) \<Rightarrow> load_loop d sections rest
      | Some (JsonDoc (Some ss)) \<Rightarrow>
          load_loop d
            (sections @ map (\<lambda>s. \<lparr>document = original_file fi, sec = s\<rparr>) ss) rest)"

definition load_sections_with_embeddings :: "disk \<Rightarrow> file_info list \<Rightarrow> exn + loaded_section list" where
  "load_sections_with_embeddings d processed_files = load_loop d [] processed_files"

subsection \<open>find\_similar\_sections\_fast\<close>

text \<open>The first loop: one similarity per section, in order; an exception of the
  library ends it.\<close>

fun similarities_loop :: "engine \<Rightarrow> real list \<Rightarrow> loaded_section list \<Rightarrow> exn + real list" where
  "similarities_loop eng q [] = Inr []"
| "similarities_loop eng q (s # rest) =
     (case cosine_similarity eng q (embedding (sec s)) of
        Inl e \<Rightarrow> Inl e
      | Inr v \<Rightarrow>
          (case similarities_loop eng q rest of
             Inl e \<Rightarrow> Inl e
           | Inr vs \<Rightarrow> Inr (v # vs)))"

definition make_result :: "int \<Rightarrow> loaded_section \<times> real \<Rightarrow> similarity_result" where
  "make_result rank_counter p =
     (case p of (s, score) \<Rightarrow>
        \<lparr>res_document = document s,
         res_section_title = section_title (sec s),
         importance_rank = rank_counter,
         res_page_number = page_number (sec s),
         similarity_score = score,
         res_level = level (sec s),
         res_content = content (sec s),
         word_count = count_words (content (sec s))\<rparr>)"

text \<open>The second loop over \<open>ranked_sections\<close>, with the state \<open>results\<close> and
  \<open>rank_counter\<close>; \<open>filtered_count\<close> is only printed and is left out.\<close>

fun filter_loop ::
  "int \<Rightarrow> (loaded_section \<times> real) list \<Rightarrow> similarity_result list \<Rightarrow> int \<Rightarrow> similarity_result list" where
  "filter_loop top_n [] results rank_counter = results"
| "filter_loop top_n (p # rest) results rank_counter =
     (if count_words (content (sec (fst p))) < 15
      then filter_loop top_n rest results rank_counter
      else
        (let results' = results @ [make_result rank_counter p]
         in if int (length results') \<ge> top_n then results'
            else filter_loop top_n rest results' (rank_counter + 1)))"

definition wrap_exception :: "string \<Rightarrow> exn + 'a \<Rightarrow> exn + 'a" where
  "wrap_exception msg r = (case r of Inl e \<Rightarrow> Inl (WrappedException msg e) | Inr v \<Rightarrow> Inr v)"

definition find_similar_sections_fast ::
  "engine \<Rightarrow> disk \<Rightarrow> string \<Rightarrow> file_info list \<Rightarrow> int \<Rightarrow> exn + similarity_result list" where
  "find_similar_sections_fast eng d selected_text processed_files top_n =
     wrap_exception ''Error in fast similarity analysis: ''
       (case load_sections_with_embeddings d processed_files of
          Inl e \<Rightarrow> Inl e
        | Inr sections \<Rightarrow>
            if sections = [] then Inr []
            else
              (case encode eng selected_text of
                 Inl e \<Rightarrow> Inl e
               | Inr query_embedding \<Rightarrow>
                   (case similarities_loop eng query_embedding sections of
                      Inl e \<Rightarrow> Inl e
                    | Inr similarities \<Rightarrow>
                        (let scored = zip sections similarities;
                             ranked_sections = py_sorted_reverse snd scored
                         in Inr (filter_loop top_n ranked_sections [] 1)))))"

section \<open>Specification functions for the similarity search\<close>

text \<open>The results made from a list of scored sections, numbered from \<open>rc\<close>.\<close>

fun ranked_from :: "int \<Rightarrow> (loaded_section \<times> real) list \<Rightarrow> similarity_result list" where
  "ranked_from rc [] = []"
| "ranked_from rc (p # ps) = make_result rc p # ranked_from (rc + 1) ps"

text \<open>The test of the filter, and the number of results after which the loop stops
  when \<open>have\<close> results are already there: the cut-off is looked at only after an
  append, so at least one more result is taken.\<close>

definition enough_words :: "loaded_section \<times> real \<Rightarrow> bool" where
  "enough_words p = (15 \<le> count_words (content (sec (fst p))))"

definition result_limit :: "int \<Rightarrow> nat \<Rightarrow> nat" where
  "result_limit top_n have = (if top_n - int have \<le> 1 then 1 else nat (top_n - int have))"

text \<open>What one entry of \<open>processed_files\<close> contributes, in the order of its file.\<close>

definition file_sections :: "disk \<Rightarrow> file_info \<Rightarrow> loaded_section list" where
  "file_sections d fi =
     (case d (json_path fi) of
        Some (JsonDoc (Some ss)) \<Rightarrow> map (\<lambda>s. \<lparr>document = original_file fi, sec = s\<rparr>) ss
      | _ \<Rightarrow> [])"

text \<open>The word count in the words of the specification: the text is cut at every
  whitespace character, and the empty tokens are discarded.\<close>

fun split_on :: "(char \<Rightarrow> bool) \<Rightarrow> string \<Rightarrow> string list" where
  "split_on P [] = [[]]"
| "split_on P (c # cs) =
     (if P c then [] # split_on P cs
      else (c # hd (split_on P cs)) # tl (split_on P cs))"

definition spec_word_count :: "string \<Rightarrow> nat" where
  "spec_word_count s = length (filter (\<lambda>t. t \<noteq> []) (split_on py_isspace s))"

text \<open>The list the search returns for given scored candidates.\<close>

definition search_outcome :: "int \<Rightarrow> (loaded_section \<times> real) list \<Rightarrow> similarity_result list" where
  "search_outcome top_n scored =
     ranked_from 1 (take (result_limit top_n 0) (filter enough_words (py_sorted_reverse snd scored)))"

subsection \<open>A small corpus\<close>

text \<open>Two processed files with two sections each; the similarity of a section is the
  first component of its embedding.\<close>

definition ex_engine :: engine where
  "ex_engine = \<lparr>encode = (\<lambda>t. Inr [1]),
     cosine_similarity = (\<lambda>q e. case e of [] \<Rightarrow> Inl ValueError | x # xs \<Rightarrow> Inr x)\<rparr>"

definition ex_long :: string where
  "ex_long = ''a b c d e f g h  i j k l m n o''"

definition ex_section :: "string \<Rightarrow> string \<Rightarrow> real \<Rightarrow> stored_section" where
  "ex_section t c v = \<lparr>section_title = t, page_number = 1, level = ''H1'', content = c,
     embedding = [v], section_text = t @ ''. '' @ c\<rparr>"

definition ex_disk :: disk where
  "ex_disk p =
     (if p = ''a.json'' then Some (JsonDoc (Some [ex_section ''A'' ex_long (82 / 100), ex_section ''B'' ''too short'' (95 / 100)]))
      else if p = ''b.json'' then Some (JsonDoc (Some [ex_section ''C'' ex_long (82 / 100), ex_section ''D'' ex_long (9 / 10)]))
      else if p = ''c.json'' then Some (JsonDoc None)
      else None)"

definition ex_files :: "file_info list" where
  "ex_files = [\<lparr>json_path = ''a.json'', original_file = ''a.pdf''\<rparr>,
               \<lparr>json_path = ''b.json'', original_file = ''b.pdf''\<rparr>]"

definition ex_cands :: "loaded_section list" where
  "ex_cands =
     [\<lparr>document = ''a.pdf'', sec = ex_section ''A'' ex_long (82 / 100)\<rparr>,
      \<lparr>document = ''a.pdf'', sec = ex_section ''B'' ''too short'' (95 / 100)\<rparr>,
      \<lparr>document = ''b.pdf'', sec = ex_section ''C'' ex_long (82 / 100)\<rparr>,
      \<lparr>document = ''b.pdf'', sec = ex_section ''D'' ex_long (9 / 10)\<rparr>]"

text \<open>An entry of \<open>processed_files\<close> that adds no section: no file, no key
  \<open>sections\<close>, or an empty list of sections.\<close>

definition contributes_nothing :: "disk \<Rightarrow> file_info \<Rightarrow> bool" where
  "contributes_nothing d fi =
     (case d (json_path fi) of
        None \<Rightarrow> True
      | Some JsonInvalid \<Rightarrow> False
      | Some (JsonDoc None) \<Rightarrow> True
      | Some (JsonDoc (Some ss)) \<Rightarrow> ss = [])"

section \<open>pdf\_processor.py\<close>

subsection \<open>More of Python's strings and numbers\<close>

text \<open>\<open>str.lower()\<close> and \<open>str.isupper()\<close> of one character, on the code points below
  256: the upper-case letters are \<open>A\<close> to \<open>Z\<close> and 192 to 222 without 215.\<close>

definition py_isupper :: "char \<Rightarrow> bool" where
  "py_isupper c =
     (let n = (of_char c :: nat)
      in (65 \<le> n \<and> n \<le> 90) \<or> (192 \<le> n \<and> n \<le> 222 \<and> n \<noteq> 215))"

definition py_lower :: "string \<Rightarrow> string" where
  "py_lower s = map (\<lambda>c. if py_isupper c then char_of (of_char c + (32 :: nat)) else c) s"

text \<open>\<open>sub in s\<close> for strings: \<open>sub\<close> occurs in \<open>s\<close> as a contiguous piece.\<close>

fun py_in :: "string \<Rightarrow> string \<Rightarrow> bool" where
  "py_in sub [] = (sub = [])"
| "py_in sub (c # cs) = (take (length sub) (c # cs) = sub \<or> py_in sub cs)"

text \<open>Membership in \<open>string.punctuation\<close>: the ASCII characters 33 to 47, 58 to
  64, 91 to 96 and 123 to 126.\<close>

definition in_string_punctuation :: "char \<Rightarrow> bool" where
  "in_string_punctuation c =
     (let n = (of_char c :: nat)
      in (33 \<le> n \<and> n \<le> 47) \<or> (58 \<le> n \<and> n \<le> 64) \<or> (91 \<le> n \<and> n \<le> 96)
         \<or> (123 \<le> n \<and> n \<le> 126))"

text \<open>\<open>round(x, nd)\<close>, on reals: the nearest multiple of \<open>10 ^ -nd\<close>, and of two
  nearest ones the even multiple (\<open>round(72.25, 1)\<close> is \<open>72.2\<close>).\<close>

definition round_half_even :: "real \<Rightarrow> int" where
  "round_half_even y =
     (let f = \<lfloor>y\<rfloor>
      in if y - of_int f < 1 / 2 then f
         else if y - of_int f > 1 / 2 then f + 1
         else if even f then f else f + 1)"

definition py_round :: "real \<Rightarrow> nat \<Rightarrow> real" where
  "py_round x nd = real_of_int (round_half_even (x * 10 ^ nd)) / 10 ^ nd"

text \<open>\<open>max(xs) if xs else 1.0\<close>.\<close>

definition max_or_one :: "real list \<Rightarrow> real" where
  "max_or_one xs = (case xs of [] \<Rightarrow> 1 | x # rest \<Rightarrow> fold max rest x)"

text \<open>Float division raises on a zero divisor; the quotient is the exact one, which
  the quotient of two floats approximates to the last bit.\<close>

definition py_div :: "real \<Rightarrow> real \<Rightarrow> exn + real" where
  "py_div a b = (if b = 0 then Inl ZeroDivisionError else Inr (a / b))"

text \<open>\<open>os.path.basename\<close>: what follows the last slash.\<close>

definition basename :: "string \<Rightarrow> string" where
  "basename path = rev (takeWhile (\<lambda>c. c \<noteq> CHR ''/'') (rev path))"

subsection \<open>The document as PyMuPDF presents it\<close>

text \<open>A page's \<open>get_text("dict")\<close> is a list of blocks; a text block (type 0) has lines
  of spans, another block has no key \<open>lines\<close>, which is the empty list here: the code
  reads \<open>lines\<close> of a block only after the test of its type, or through \<open>get\<close> with
  the default \<open>[]\<close>.\<close>

type_synonym bbox = "real \<times> real \<times> real \<times> real"

record span =
  span_text :: string
  span_size :: real
  flags :: int
  origin :: "real \<times> real"

record line =
  spans :: "span list"

record block =
  block_type :: int
  lines :: "line list"
  bbox :: bbox

record page =
  rect_height :: real
  rect_width :: real
  blocks :: "block list"

type_synonym pdf = "page list"

definition bbox0 :: "bbox \<Rightarrow> real" where "bbox0 b = fst b"

definition bbox1 :: "bbox \<Rightarrow> real" where "bbox1 b = fst (snd b)"

definition bbox3 :: "bbox \<Rightarrow> real" where "bbox3 b = snd (snd (snd b))"

subsection \<open>Feature vectors, outlines, the processor\<close>

record block_data =
  bd_text :: string
  font_size :: real
  bd_bbox :: bbox
  page_num :: nat
  page_height :: real
  page_width :: real
  max_font_size_page :: real
  bd_is_bold :: bool
  bd_is_underlined :: bool
  block_index :: nat
  bd_space_above :: real
  bd_space_below :: real

record features =
  item_text :: string
  font_size_relative_to_max_pdf :: real
  font_size_relative_to_max_page :: real
  is_bold :: bool
  num_words :: nat
  punctuation :: string
  x_pos_relative :: real
  y_pos_relative :: real
  page_no :: nat
  title_case_ratio :: real
  stopword_ratio :: real
  space_above :: real
  space_below :: real
  is_underlined :: bool

record heading_entry =
  entry_level :: string
  entry_text :: string
  entry_page :: int

record prediction =
  title :: string
  outline :: "heading_entry list"

text \<open>A cell of the data frame handed to the model.\<close>

datatype cell = Num real | Flag bool | Str string

text \<open>The fitted model: its attributes \<open>feature_names_\<close> and \<open>feature_names_in_\<close>
  (absent: \<open>None\<close>; the fields \<open>model_feature_names\<close> and
  \<open>model_feature_names_in\<close>) and its method \<open>predict\<close>, which gets the column names and the
  rows and returns one class index per row, or raises. \<open>truth_test_raises\<close> is the
  exception that testing the object for truth raises, if it raises: an ensemble of
  scikit-learn that was never fitted has no \<open>estimators_\<close> for its \<open>__len__\<close>. An
  object that tests true has \<open>None\<close> there.\<close>

record heading_model =
  truth_test_raises :: "exn option"
  model_feature_names :: "string list option"
  model_feature_names_in :: "string list option"
  predict :: "string list \<Rightarrow> cell list list \<Rightarrow> exn + int list"

text \<open>The fields of \<open>PDFProcessor\<close>. \<open>model\<close> is the sentence transformer, reduced
  to the encoding of one text. \<open>the_heading_model\<close> is \<open>self.heading_model\<close>: it is
  \<open>None\<close> when the attribute is \<open>None\<close> or an object that tests false, which the code
  does not tell apart.\<close>

record pdf_processor =
  stop_words :: "string list"
  model :: "string \<Rightarrow> exn + real list"
  the_heading_model :: "heading_model option"
  label_encoder :: "(int list \<Rightarrow> exn + string list) option"
  feature_names :: "string list option"

subsection \<open>smart\_join\_lines\<close>

fun join_loop :: "nat \<Rightarrow> string list \<Rightarrow> string list \<Rightarrow> string list" where
  "join_loop i joined [] = joined"
| "join_loop i joined (line_text # rest) =
     (if i = 0 then join_loop (i + 1) (joined @ [line_text]) rest
      else if (last joined \<noteq> [] \<and> last (last joined) = CHR '' '') \<or> (line_text \<noteq> [] \<and> hd line_text = CHR '' '')
      then join_loop (i + 1) (joined @ [line_text]) rest
      else join_loop (i + 1) (joined @ [CHR '' '' # line_text]) rest)"

definition smart_join_lines :: "string list \<Rightarrow> string" where
  "smart_join_lines lns = py_strip (concat (join_loop 0 [] lns))"

unbundle bit_operations_syntax

subsection \<open>extract\_features\_from\_pdf\<close>

definition page_font_sizes :: "page \<Rightarrow> real list" where
  "page_font_sizes pg =
     concat (map (\<lambda>b. if block_type b = 0
                        then concat (map (\<lambda>l. map (\<lambda>s. py_round (span_size s) 2) (spans l)) (lines b))
                        else [])
                 (blocks pg))"

text \<open>The table heuristic: more than one line, and more than one distinct rounded
  x-coordinate among the first spans of the lines that have spans.\<close>

definition is_table_block :: "block \<Rightarrow> bool" where
  "is_table_block b =
     (length (lines b) > 1 \<and>
      length (remdups (map (\<lambda>x. py_round x 1)
                (map (\<lambda>l. fst (origin (hd (spans l)))) (filter (\<lambda>l. spans l \<noteq> []) (lines b))))) > 1)"

text \<open>The two nested loops that read the lines of a block: the state of the inner one
  is \<open>text_line\<close> and \<open>underline_present\<close>, that of the outer one is
  \<open>line_texts\<close> and \<open>underline_present\<close>.\<close>

fun spans_loop :: "span list \<Rightarrow> string \<times> bool \<Rightarrow> string \<times> bool" where
  "spans_loop [] st = st"
| "spans_loop (s # rest) (text_line, underline_present) =
     spans_loop rest
       (text_line @ span_text s,
        if flags s AND 4 \<noteq> 0 then True else underline_present)"

fun lines_loop :: "line list \<Rightarrow> string list \<times> bool \<Rightarrow> string list \<times> bool" where
  "lines_loop [] st = st"
| "lines_loop (l # rest) (line_texts, underline_present) =
     (case spans_loop (spans l) ([], underline_present) of
        (text_line, underline_present') \<Rightarrow>
          lines_loop rest
            (if py_strip text_line \<noteq> [] then line_texts @ [text_line] else line_texts,
             underline_present'))"

text \<open>\<open>b['lines'][0]['spans'][0]\<close>.\<close>

definition first_span :: "block \<Rightarrow> exn + span" where
  "first_span b =
     (case lines b of
        [] \<Rightarrow> Inl IndexError
      | l # ls \<Rightarrow> (case spans l of [] \<Rightarrow> Inl IndexError | s # ss \<Rightarrow> Inr s))"

text \<open>One turn of the loop over the blocks of a page: \<open>None\<close> where the code
  continues with the next block. The keys \<open>space_above\<close> and \<open>space_below\<close> are
  written later; they are 0 until then.\<close>

definition scan_block :: "nat \<Rightarrow> page \<Rightarrow> real \<Rightarrow> nat \<Rightarrow> block \<Rightarrow> exn + block_data option" where
  "scan_block pn pg max_page b_idx b =
     (if block_type b \<noteq> 0 then Inr None
      else if is_table_block b then Inr None
      else
        (case lines_loop (lines b) ([], False) of
           (line_texts, underline_present) \<Rightarrow>
             if line_texts = [] then Inr None
             else
               (case first_span b of
                  Inl e \<Rightarrow> Inl e
                | Inr fs \<Rightarrow>
                    Inr (Some
                      \<lparr>bd_text = smart_join_lines line_texts,
                       font_size = py_round (span_size fs) 2,
                       bd_bbox = bbox b,
                       page_num = pn,
                       page_height = rect_height pg,
                       page_width = rect_width pg,
                       max_font_size_page = max_page,
                       bd_is_bold = (flags fs AND 16 \<noteq> 0),
                       bd_is_underlined = underline_present,
                       block_index = b_idx,
                       bd_space_above = 0,
                       bd_space_below = 0\<rparr>))))"

fun blocks_loop ::
  "nat \<Rightarrow> page \<Rightarrow> real \<Rightarrow> nat \<Rightarrow> block list \<Rightarrow> block_data list \<Rightarrow> exn + block_data list" where
  "blocks_loop pn pg max_page b_idx [] page_blocks = Inr page_blocks"
| "blocks_loop pn pg max_page b_idx (b # rest) page_blocks =
     (case scan_block pn pg max_page b_idx b of
        Inl e \<Rightarrow> Inl e
      | Inr None \<Rightarrow> blocks_loop pn pg max_page (b_idx + 1) rest page_blocks
      | Inr (Some bd) \<Rightarrow> blocks_loop pn pg max_page (b_idx + 1) rest (page_blocks @ [bd]))"

text \<open>The spacing loop writes two keys of every block of the page and reads only the
  bounding boxes, so its outcome is a map over the positions. The dictionaries it
  writes are the ones \<open>all_text_blocks_raw\<close> holds.\<close>

definition add_spacing :: "real \<Rightarrow> block_data list \<Rightarrow> block_data list" where
  "add_spacing ph page_blocks =
     map (\<lambda>i. (page_blocks ! i)
            \<lparr>bd_space_above :=
               bbox1 (bd_bbox (page_blocks ! i))
               - (if i > 0 then bbox3 (bd_bbox (page_blocks ! (i - 1))) else 0),
             bd_space_below :=
               (if int i < int (length page_blocks) - 1
                then bbox1 (bd_bbox (page_blocks ! (i + 1))) else ph)
               - bbox3 (bd_bbox (page_blocks ! i))\<rparr>)
         [0..<length page_blocks]"

fun pages_loop :: "nat \<Rightarrow> page list \<Rightarrow> block_data list \<Rightarrow> exn + block_data list" where
  "pages_loop pn [] all_text_blocks_raw = Inr all_text_blocks_raw"
| "pages_loop pn (pg # rest) all_text_blocks_raw =
     (case blocks_loop pn pg (max_or_one (page_font_sizes pg)) 0 (blocks pg) [] of
        Inl e \<Rightarrow> Inl e
      | Inr page_blocks \<Rightarrow>
          pages_loop (pn + 1) rest (all_text_blocks_raw @ add_spacing (rect_height pg) page_blocks))"

definition bind_exn :: "exn + 'a \<Rightarrow> ('a \<Rightarrow> exn + 'b) \<Rightarrow> exn + 'b" where
  "bind_exn r f = (case r of Inl e \<Rightarrow> Inl e | Inr v \<Rightarrow> f v)"

fun map_exn :: "('a \<Rightarrow> exn + 'b) \<Rightarrow> 'a list \<Rightarrow> exn + 'b list" where
  "map_exn f [] = Inr []"
| "map_exn f (x # xs) =
     (case f x of
        Inl e \<Rightarrow> Inl e
      | Inr y \<Rightarrow> (case map_exn f xs of Inl e \<Rightarrow> Inl e | Inr ys \<Rightarrow> Inr (y # ys)))"

definition block_features :: "string list \<Rightarrow> real \<Rightarrow> block_data \<Rightarrow> exn + features" where
  "block_features sw max_font_size_pdf blk =
     (let text = bd_text blk;
          words = py_split (py_strip text);
          stripped = py_strip text
      in
      bind_exn (py_div (font_size blk) max_font_size_pdf) (\<lambda>rel_pdf.
      bind_exn (py_div (font_size blk) (max_font_size_page blk)) (\<lambda>rel_page.
      bind_exn (py_div (bbox0 (bd_bbox blk)) (page_width blk)) (\<lambda>x_rel.
      bind_exn (py_div (bbox1 (bd_bbox blk)) (page_height blk)) (\<lambda>y_rel.
      bind_exn (py_div (bd_space_above blk) (page_height blk)) (\<lambda>above.
      bind_exn (py_div (bd_space_below blk) (page_height blk)) (\<lambda>below.
        Inr \<lparr>item_text = text,
             font_size_relative_to_max_pdf = rel_pdf,
             font_size_relative_to_max_page = rel_page,
             is_bold = bd_is_bold blk,
             num_words = length words,
             punctuation =
               (if stripped \<noteq> [] \<and> in_string_punctuation (last stripped)
                then [last stripped] else ''NULL''),
             x_pos_relative = x_rel,
             y_pos_relative = y_rel,
             page_no = page_num blk,
             title_case_ratio =
               (if words \<noteq> []
                then real (length (filter (\<lambda>w. w \<noteq> [] \<and> py_isupper (hd w)) words))
                     / real (length words)
                else 0),
             stopword_ratio =
               (if words \<noteq> []
                then real (length (filter (\<lambda>w. py_lower w \<in> set sw) words))
                     / real (length words)
                else 0),
             space_above = above,
             space_below = below,
             is_underlined = bd_is_underlined blk\<rparr>)))))))"

text \<open>\<open>fitz.open\<close> is a parameter: the document at a path, or an exception.\<close>

definition extract_features_from_pdf ::
  "(string \<Rightarrow> exn + pdf) \<Rightarrow> pdf_processor \<Rightarrow> string \<Rightarrow> exn + features list" where
  "extract_features_from_pdf fitz_open self pdf_path =
     (case fitz_open pdf_path of
        Inl e \<Rightarrow> Inl e
      | Inr doc \<Rightarrow>
          (case pages_loop 0 doc [] of
             Inl e \<Rightarrow> Inl e
           | Inr all_text_blocks_raw \<Rightarrow>
               map_exn (block_features (stop_words self)
                          (max_or_one (map font_size all_text_blocks_raw)))
                 all_text_blocks_raw))"

subsection \<open>predict\_headings\_simple\<close>

definition heading_level :: "features \<Rightarrow> string" where
  "heading_level item =
     (if font_size_relative_to_max_pdf item > 0.8 \<and> is_bold item \<and> num_words item \<le> 10
      then ''H1''
      else if font_size_relative_to_max_pdf item > 0.6 \<and> (is_bold item \<or> num_words item \<le> 15)
      then ''H2''
      else if font_size_relative_to_max_pdf item > 0.5 \<and> num_words item \<le> 20
      then ''H3''
      else ''None'')"

definition is_title_block :: "features \<Rightarrow> bool" where
  "is_title_block item =
     (page_no item = 0 \<and> y_pos_relative item < 0.1 \<and> font_size_relative_to_max_pdf item > 0.9)"

definition make_entry :: "string \<Rightarrow> features \<Rightarrow> heading_entry" where
  "make_entry lvl item =
     \<lparr>entry_level = lvl, entry_text = item_text item, entry_page = int (page_no item) + 1\<rparr>"

fun simple_loop :: "features list \<Rightarrow> string \<times> heading_entry list \<Rightarrow> string \<times> heading_entry list" where
  "simple_loop [] st = st"
| "simple_loop (item # rest) (title_text, outl) =
     (if is_title_block item then simple_loop rest (item_text item, outl)
      else if heading_level item \<noteq> ''None''
      then simple_loop rest (title_text, outl @ [make_entry (heading_level item) item])
      else simple_loop rest (title_text, outl))"

definition predict_headings_simple :: "features list \<Rightarrow> prediction" where
  "predict_headings_simple input_data =
     (let sorted_data = py_sorted (\<lambda>x. (page_no x, y_pos_relative x)) input_data
      in case simple_loop sorted_data ([], []) of
           (title_text, outl) \<Rightarrow> \<lparr>title = py_strip title_text, outline = outl\<rparr>)"

subsection \<open>predict\_headings\_with\_model\<close>

text \<open>The columns of the data frame after \<open>get_dummies\<close>: the keys of a feature
  vector other than \<open>punctuation\<close>, and one column \<open>punctuation_v\<close> for every value
  \<open>v\<close> of \<open>punctuation\<close> in the input. \<open>cell_of\<close> is the entry of a row in a
  column of the aligned frame: a column the frame lacks is filled with 0. No entry is
  missing, so the imputer is never run.\<close>

definition dummy_columns :: "features list \<Rightarrow> string list" where
  "dummy_columns input_data = map (\<lambda>item. ''punctuation_'' @ punctuation item) input_data"

definition cell_of :: "features list \<Rightarrow> features \<Rightarrow> string \<Rightarrow> cell" where
  "cell_of input_data item col =
     (if col = ''text'' then Str (item_text item)
      else if col = ''font_size_relative_to_max_pdf'' then Num (font_size_relative_to_max_pdf item)
      else if col = ''font_size_relative_to_max_page'' then Num (font_size_relative_to_max_page item)
      else if col = ''is_bold'' then Flag (is_bold item)
      else if col = ''num_words'' then Num (real (num_words item))
      else if col = ''x_pos_relative'' then Num (x_pos_relative item)
      else if col = ''y_pos_relative'' then Num (y_pos_relative item)
      else if col = ''page_no'' then Num (real (page_no item))
      else if col = ''title_case_ratio'' then Num (title_case_ratio item)
      else if col = ''stopword_ratio'' then Num (stopword_ratio item)
      else if col = ''space_above'' then Num (space_above item)
      else if col = ''space_below'' then Num (space_below item)
      else if col = ''is_underlined'' then Flag (is_underlined item)
      else if col \<in> set (dummy_columns input_data)
      then Flag (col = ''punctuation_'' @ punctuation item)
      else Num 0)"

text \<open>The schema: \<open>self.feature_names\<close> when it is a non-empty list, else the model's
  \<open>feature_names_\<close> when that is a non-empty list, else its \<open>feature_names_in_\<close>.\<close>

definition expected_cols :: "pdf_processor \<Rightarrow> heading_model \<Rightarrow> string list option" where
  "expected_cols self m =
     (case feature_names self of
        Some (c # cs) \<Rightarrow> Some (c # cs)
      | _ \<Rightarrow>
          (case model_feature_names m of
             Some (c # cs) \<Rightarrow> Some (c # cs)
           | _ \<Rightarrow> model_feature_names_in m))"

definition CLASS_NAMES :: "string list" where
  "CLASS_NAMES = [''H1'', ''H2'', ''H3'', ''None'', ''Title'']"

text \<open>\<open>CLASS_NAMES[i]\<close>: a negative index counts from the end.\<close>

definition class_name :: "int \<Rightarrow> exn + string" where
  "class_name i =
     (if - 5 \<le> i \<and> i < 5 then Inr (CLASS_NAMES ! nat (i mod 5)) else Inl IndexError)"

definition decode_predictions :: "pdf_processor \<Rightarrow> int list \<Rightarrow> exn + string list" where
  "decode_predictions self predictions =
     (case label_encoder self of
        Some inverse_transform \<Rightarrow> inverse_transform predictions
      | None \<Rightarrow> map_exn class_name predictions)"

fun model_loop :: "(features \<times> string) list \<Rightarrow> string \<times> heading_entry list \<Rightarrow> string \<times> heading_entry list" where
  "model_loop [] st = st"
| "model_loop ((item, lvl) # rest) (title_text, outl) =
     (if lvl = ''Title'' then model_loop rest (title_text @ item_text item @ '' '', outl)
      else if lvl \<noteq> ''None'' then model_loop rest (title_text, outl @ [make_entry lvl item])
      else model_loop rest (title_text, outl))"

text \<open>The body of the \<open>try\<close>. An empty input has no column \<open>punctuation\<close>.\<close>

definition model_prediction :: "pdf_processor \<Rightarrow> heading_model \<Rightarrow> features list \<Rightarrow> exn + prediction" where
  "model_prediction self m input_data =
     (if input_data = [] then Inl KeyError
      else
        (case expected_cols self m of
           None \<Rightarrow> Inl AttributeError
         | Some cols \<Rightarrow>
             (case predict m cols (map (\<lambda>item. map (cell_of input_data item) cols) input_data) of
                Inl e \<Rightarrow> Inl e
              | Inr predictions \<Rightarrow>
                  (case decode_predictions self predictions of
                     Inl e \<Rightarrow> Inl e
                   | Inr pred_levels \<Rightarrow>
                       (case model_loop (zip input_data pred_levels) ([], []) of
                          (title_text, outl) \<Rightarrow>
                            Inr \<lparr>title = py_strip title_text, outline = outl\<rparr>)))))"

text \<open>The truth value of \<open>self.heading_model\<close>, which \<open>if not self.heading_model\<close> and
  \<open>if self.heading_model\<close> compute; it may raise.\<close>

definition heading_model_truth :: "pdf_processor \<Rightarrow> exn + bool" where
  "heading_model_truth self =
     (case the_heading_model self of
        None \<Rightarrow> Inr False
      | Some m \<Rightarrow> (case truth_test_raises m of Some e \<Rightarrow> Inl e | None \<Rightarrow> Inr True))"

text \<open>The test of the model stands before the \<open>try\<close>: what it raises reaches the
  caller. What the body of the \<open>try\<close> raises is caught.\<close>

definition predict_headings_with_model :: "pdf_processor \<Rightarrow> features list \<Rightarrow> exn + prediction" where
  "predict_headings_with_model self input_data =
     (case the_heading_model self of
        None \<Rightarrow> Inr (predict_headings_simple input_data)
      | Some m \<Rightarrow>
          (case truth_test_raises m of
             Some e \<Rightarrow> Inl e
           | None \<Rightarrow>
               (case model_prediction self m input_data of
                  Inr r \<Rightarrow> Inr r
                | Inl e \<Rightarrow> Inr (predict_headings_simple input_data))))"

subsection \<open>extract\_text\_for\_heading\<close>

text \<open>\<open>doc.load_page\<close>: a number past the last page raises, and a negative number
  counts from the end, the page count being added until it is not negative. In a
  document without pages that never ends; the model raises there.\<close>

definition load_page :: "pdf \<Rightarrow> int \<Rightarrow> exn + page" where
  "load_page doc n =
     (if n \<ge> int (length doc) then Inl ValueError
      else if 0 \<le> n then Inr (doc ! nat n)
      else if doc = [] then Inl ValueError
      else Inr (doc ! nat (n mod int (length doc))))"

text \<open>The three nested loops, with the state \<open>full_text\<close> and \<open>heading_found\<close>;
  \<open>Return\<close> is the \<open>return\<close> inside the innermost loop.\<close>

datatype 'a flow = Next 'a | Return string

definition line_text_of :: "line \<Rightarrow> string" where
  "line_text_of l = concat (map span_text (spans l))"

definition mentions :: "heading_entry \<Rightarrow> string \<Rightarrow> bool" where
  "mentions h line_text = py_in (py_lower (entry_text h)) (py_lower line_text)"

fun scan_lines ::
  "heading_entry \<Rightarrow> heading_entry option \<Rightarrow> line list \<Rightarrow> string \<times> bool \<Rightarrow> (string \<times> bool) flow" where
  "scan_lines heading next_heading [] st = Next st"
| "scan_lines heading next_heading (l # rest) (full_text, heading_found) =
     (let line_text = line_text_of l
      in if \<not> heading_found \<and> mentions heading line_text
         then scan_lines heading next_heading rest (full_text, True)
         else if heading_found
         then (if (case next_heading of None \<Rightarrow> False | Some n \<Rightarrow> mentions n line_text)
               then Return (py_strip full_text)
               else scan_lines heading next_heading rest (full_text @ line_text @ '' '', heading_found))
         else scan_lines heading next_heading rest (full_text, heading_found))"

fun scan_blocks ::
  "heading_entry \<Rightarrow> heading_entry option \<Rightarrow> block list \<Rightarrow> string \<times> bool \<Rightarrow> (string \<times> bool) flow" where
  "scan_blocks heading next_heading [] st = Next st"
| "scan_blocks heading next_heading (b # rest) st =
     (case scan_lines heading next_heading (lines b) st of
        Return r \<Rightarrow> Return r
      | Next st' \<Rightarrow> scan_blocks heading next_heading rest st')"

fun scan_pages ::
  "pdf \<Rightarrow> heading_entry \<Rightarrow> heading_entry option \<Rightarrow> int list \<Rightarrow> string \<times> bool \<Rightarrow> exn + string" where
  "scan_pages doc heading next_heading [] st = Inr (py_strip (fst st))"
| "scan_pages doc heading next_heading (pnum # rest) st =
     (case load_page doc pnum of
        Inl e \<Rightarrow> Inl e
      | Inr pg \<Rightarrow>
          (case scan_blocks heading next_heading (blocks pg) st of
             Return r \<Rightarrow> Inr r
           | Next st' \<Rightarrow> scan_pages doc heading next_heading rest st'))"

definition extract_text_for_heading ::
  "pdf \<Rightarrow> heading_entry \<Rightarrow> heading_entry option \<Rightarrow> exn + string" where
  "extract_text_for_heading doc heading next_heading =
     (let start_page = entry_page heading - 1;
          end_page = (case next_heading of
                        Some n \<Rightarrow> entry_page n - 1
                      | None \<Rightarrow> int (length doc) - 1)
      in scan_pages doc heading next_heading [start_page..end_page] ([], False))"

subsection \<open>extract\_sections\_with\_content\<close>

fun sections_loop ::
  "pdf_processor \<Rightarrow> pdf \<Rightarrow> heading_entry list \<Rightarrow> stored_section list \<Rightarrow> exn + stored_section list" where
  "sections_loop self doc [] sections = Inr sections"
| "sections_loop self doc (cur # rest) sections =
     (let nxt = (case rest of [] \<Rightarrow> None | n # ns \<Rightarrow> Some n)
      in case extract_text_for_heading doc cur nxt of
           Inl e \<Rightarrow> Inl e
         | Inr cont \<Rightarrow>
             if cont \<noteq> []
             then
               (let stext = entry_text cur @ ''. '' @ cont
                in case model self stext of
                     Inl e \<Rightarrow> Inl e
                   | Inr emb \<Rightarrow>
                       sections_loop self doc rest
                         (sections @
                          [\<lparr>section_title = entry_text cur,
                            page_number = entry_page cur,
                            level = entry_level cur,
                            content = cont,
                            embedding = emb,
                            section_text = stext\<rparr>]))
             else sections_loop self doc rest sections)"

definition extract_sections_with_content ::
  "(string \<Rightarrow> exn + pdf) \<Rightarrow> pdf_processor \<Rightarrow> string \<Rightarrow> heading_entry list \<Rightarrow> exn + stored_section list" where
  "extract_sections_with_content fitz_open self pdf_path outl =
     (case fitz_open pdf_path of
        Inl e \<Rightarrow> Inl e
      | Inr doc \<Rightarrow> sections_loop self doc outl [])"

subsection \<open>process\_pdf\<close>

record metadata =
  filename :: string
  processed_at :: string
  total_blocks :: nat
  total_sections :: nat
  model_used :: string

record document_index =
  idx_title :: string
  idx_outline :: "heading_entry list"
  idx_metadata :: metadata
  idx_sections :: "stored_section list"
  full_text :: string
  full_text_embedding :: "real list"

text \<open>\<open>sep.join(xs)\<close>.\<close>

fun py_join :: "string \<Rightarrow> string list \<Rightarrow> string" where
  "py_join sep [] = []"
| "py_join sep [x] = x"
| "py_join sep (x # y # ys) = x @ sep @ py_join sep (y # ys)"

text \<open>\<open>now\<close> is the value of \<open>datetime.now().isoformat()\<close>.\<close>

definition process_pdf ::
  "(string \<Rightarrow> exn + pdf) \<Rightarrow> string \<Rightarrow> pdf_processor \<Rightarrow> string \<Rightarrow> exn + document_index" where
  "process_pdf fitz_open now self pdf_path =
     wrap_exception (''Error processing PDF '' @ pdf_path @ '': '')
       (case extract_features_from_pdf fitz_open self pdf_path of
          Inl e \<Rightarrow> Inl e
        | Inr feats \<Rightarrow>
            (case predict_headings_with_model self feats of
               Inl e \<Rightarrow> Inl e
             | Inr json_data \<Rightarrow>
                 (case extract_sections_with_content fitz_open self pdf_path (outline json_data) of
                    Inl e \<Rightarrow> Inl e
                  | Inr sections \<Rightarrow>
                      (case heading_model_truth self of
                         Inl e \<Rightarrow> Inl e
                       | Inr truth \<Rightarrow>
                           (let meta = \<lparr>filename = basename pdf_path,
                                        processed_at = now,
                                        total_blocks = length feats,
                                        total_sections = length sections,
                                        model_used = (if truth then ''pretrained''
                                                      else ''heuristic'')\<rparr>;
                                ftext = py_join '' '' (map content sections)
                            in case model self ftext of
                                 Inl e \<Rightarrow> Inl e
                               | Inr emb \<Rightarrow>
                                   Inr \<lparr>idx_title = title json_data,
                                        idx_outline = outline json_data,
                                        idx_metadata = meta,
                                        idx_sections = sections,
                                        full_text = ftext,
                                        full_text_embedding = emb\<rparr>)))))"

subsection \<open>Sample feature vectors\<close>

definition ex_item :: "string \<Rightarrow> nat \<Rightarrow> real \<Rightarrow> real \<Rightarrow> bool \<Rightarrow> nat \<Rightarrow> features" where
  "ex_item t pg y ratio bold n =
     \<lparr>item_text = t, font_size_relative_to_max_pdf = ratio, font_size_relative_to_max_page = ratio,
      is_bold = bold, num_words = n, punctuation = ''NULL'', x_pos_relative = 0.1,
      y_pos_relative = y, page_no = pg, title_case_ratio = 1, stopword_ratio = 0,
      space_above = 0.01, space_below = 0.01, is_underlined = False\<rparr>"

definition ex_two_titles :: "features list" where
  "ex_two_titles = [ex_item ''Second line'' 0 0.05 0.95 False 2, ex_item ''First line'' 0 0.02 1 False 2]"

section \<open>Specification functions for the feature extractor\<close>

text \<open>Some span of some line of the block has the underline bit, and the first span of
  the first line has the bold bit.\<close>

definition any_span_underlined :: "block \<Rightarrow> bool" where
  "any_span_underlined b = list_ex (\<lambda>l. list_ex (\<lambda>s. flags s AND 4 \<noteq> 0) (spans l)) (lines b)"

definition first_span_bold :: "block \<Rightarrow> bool" where
  "first_span_bold b = (case first_span b of Inr fs \<Rightarrow> flags fs AND 16 \<noteq> 0 | Inl e \<Rightarrow> False)"

definition first_span_underlined :: "block \<Rightarrow> bool" where
  "first_span_underlined b = (case first_span b of Inr fs \<Rightarrow> flags fs AND 4 \<noteq> 0 | Inl e \<Rightarrow> False)"

text \<open>The blocks that yield a feature vector: text blocks that are not taken for a
  table and have a line with text other than whitespace.\<close>

definition kept_block :: "block \<Rightarrow> bool" where
  "kept_block b =
     (block_type b = 0 \<and> \<not> is_table_block b
      \<and> filter (\<lambda>t. py_strip t \<noteq> []) (map line_text_of (lines b)) \<noteq> [])"

definition kept_blocks :: "pdf \<Rightarrow> block list" where
  "kept_blocks doc = concat (map (\<lambda>pg. filter kept_block (blocks pg)) doc)"

definition bd_flags :: "block_data \<Rightarrow> bool \<times> bool" where
  "bd_flags bd = (bd_is_bold bd, bd_is_underlined bd)"

definition block_flags :: "block \<Rightarrow> bool \<times> bool" where
  "block_flags b = (first_span_bold b, any_span_underlined b)"

subsection \<open>A sample document\<close>

definition ex_span :: "string \<Rightarrow> int \<Rightarrow> span" where
  "ex_span t fl = \<lparr>span_text = t, span_size = 12, flags = fl, origin = (72, 100)\<rparr>"

definition ex_underline_block :: block where
  "ex_underline_block =
     \<lparr>block_type = 0,
      lines = [\<lparr>spans = [ex_span ''Plain '' 16, ex_span ''underlined'' 4]\<rparr>],
      bbox = (72, 90, 300, 110)\<rparr>"

definition ex_underline_pdf :: pdf where
  "ex_underline_pdf = [\<lparr>rect_height = 800, rect_width = 600, blocks = [ex_underline_block]\<rparr>]"

definition ex_processor :: pdf_processor where
  "ex_processor =
     \<lparr>stop_words = [''the''], model = (\<lambda>t. Inr [1]), the_heading_model = None,
      label_encoder = None, feature_names = None\<rparr>"

definition ex_open :: "string \<Rightarrow> exn + pdf" where
  "ex_open path = (if path = ''underline.pdf'' then Inr ex_underline_pdf else Inl LibraryError)"

subsection \<open>Sample models\<close>

text \<open>A model without a schema, one whose inference raises, one that predicts a class
  index out of range, and an ensemble that was never fitted, whose truth test raises.\<close>

definition ex_model_no_schema :: heading_model where
  "ex_model_no_schema =
     \<lparr>truth_test_raises = None, model_feature_names = None, model_feature_names_in = None,
      predict = (\<lambda>cols rows. Inr (map (\<lambda>r. 0) rows))\<rparr>"

definition ex_model_raising :: heading_model where
  "ex_model_raising =
     \<lparr>truth_test_raises = None,
      model_feature_names = Some [''num_words'', ''is_bold''], model_feature_names_in = None,
      predict = (\<lambda>cols rows. Inl LibraryError)\<rparr>"

definition ex_model_bad_class :: heading_model where
  "ex_model_bad_class =
     \<lparr>truth_test_raises = None,
      model_feature_names = Some [''num_words'', ''is_bold''], model_feature_names_in = None,
      predict = (\<lambda>cols rows. Inr (map (\<lambda>r. 7) rows))\<rparr>"

definition ex_model_unfitted :: heading_model where
  "ex_model_unfitted =
     \<lparr>truth_test_raises = Some AttributeError,
      model_feature_names = None, model_feature_names_in = Some [''num_words'', ''is_bold''],
      predict = (\<lambda>cols rows. Inl LibraryError)\<rparr>"

definition with_model :: "heading_model \<Rightarrow> pdf_processor" where
  "with_model m =
     \<lparr>stop_words = [''the''], model = (\<lambda>t. Inr [1]), the_heading_model = Some m,
      label_encoder = None, feature_names = None\<rparr>"

definition ex_input :: "features list" where
  "ex_input = [ex_item ''Second line'' 0 0.05 0.95 False 2, ex_item ''Heading'' 1 0.3 0.85 True 1]"

definition ex_underline_item :: features where
  "ex_underline_item =
     \<lparr>item_text = ''Plain underlined'', font_size_relative_to_max_pdf = 1,
           font_size_relative_to_max_page = 1, is_bold = True, num_words = 2,
           punctuation = ''NULL'', x_pos_relative = 72 / 600, y_pos_relative = 90 / 800,
           page_no = 0, title_case_ratio = 1 / 2, stopword_ratio = 0,
           space_above = 90 / 800, space_below = 690 / 800, is_underlined = True\<rparr>"

section \<open>Specification functions for the segmenter\<close>

text \<open>The lines of a page in reading order, and the lines of the pages with the indices
  \<open>s\<close> to \<open>e\<close>, both included.\<close>

definition page_lines :: "page \<Rightarrow> line list" where
  "page_lines pg = concat (map lines (blocks pg))"

definition window_lines :: "pdf \<Rightarrow> int \<Rightarrow> int \<Rightarrow> line list" where
  "window_lines doc s e = concat (map (\<lambda>n. page_lines (doc ! nat n)) [s..e])"

text \<open>The entry after the current one, the index of the last page of the window, and
  whether a line contains the text of the next heading.\<close>

definition next_entry :: "heading_entry list \<Rightarrow> heading_entry option" where
  "next_entry rest = (case rest of [] \<Rightarrow> None | n # ns \<Rightarrow> Some n)"

definition end_page_of :: "pdf \<Rightarrow> heading_entry option \<Rightarrow> int" where
  "end_page_of doc next_heading =
     (case next_heading of Some n \<Rightarrow> entry_page n - 1 | None \<Rightarrow> int (length doc) - 1)"

definition next_mentions :: "heading_entry option \<Rightarrow> line \<Rightarrow> bool" where
  "next_mentions next_heading l =
     (case next_heading of None \<Rightarrow> False | Some n \<Rightarrow> mentions n (line_text_of l))"

text \<open>The lines after the first one that contains the heading's text, up to the first
  of them that contains the next heading's text; and the content made of them.\<close>

definition body_lines :: "heading_entry \<Rightarrow> heading_entry option \<Rightarrow> line list \<Rightarrow> line list" where
  "body_lines heading next_heading ls =
     takeWhile (\<lambda>l. \<not> next_mentions next_heading l)
       (tl (dropWhile (\<lambda>l. \<not> mentions heading (line_text_of l)) ls))"

definition joined_text :: "line list \<Rightarrow> string" where
  "joined_text ls = concat (map (\<lambda>l. line_text_of l @ '' '') ls)"

definition section_body :: "heading_entry \<Rightarrow> heading_entry option \<Rightarrow> line list \<Rightarrow> string" where
  "section_body heading next_heading ls = py_strip (joined_text (body_lines heading next_heading ls))"

definition finish :: "(string \<times> bool) flow \<Rightarrow> string" where
  "finish f = (case f of Return r \<Rightarrow> r | Next st \<Rightarrow> py_strip (fst st))"

subsection \<open>A sample document of two pages\<close>

definition ex_line :: "string list \<Rightarrow> line" where
  "ex_line ts = \<lparr>spans = map (\<lambda>t. ex_span t 0) ts\<rparr>"

definition ex_text_block :: "line list \<Rightarrow> block" where
  "ex_text_block ls = \<lparr>block_type = 0, lines = ls, bbox = (72, 90, 300, 110)\<rparr>"

definition ex_two_pages :: pdf where
  "ex_two_pages =
     [\<lparr>rect_height = 800, rect_width = 600,
       blocks = [ex_text_block [ex_line [''Preface'']],
                 \<lparr>block_type = 1, lines = [], bbox = (0, 0, 10, 10)\<rparr>,
                 ex_text_block [ex_line [''1 INTRO'', ''DUCTION''], ex_line [''alpha'']]]\<rparr>,
      \<lparr>rect_height = 800, rect_width = 600,
       blocks = [ex_text_block [ex_line [''beta''], ex_line [''2 Methods used''], ex_line [''gamma'']]]\<rparr>]"

definition ex_intro :: heading_entry where
  "ex_intro = \<lparr>entry_level = ''H1'', entry_text = ''Introduction'', entry_page = 1\<rparr>"

definition ex_methods :: heading_entry where
  "ex_methods = \<lparr>entry_level = ''H1'', entry_text = ''Methods'', entry_page = 2\<rparr>"

definition ex_missing :: heading_entry where
  "ex_missing = \<lparr>entry_level = ''H2'', entry_text = ''Conclusion'', entry_page = 1\<rparr>"

section \<open>Properties\<close>

lemma filter_loop_eq:
  "filter_loop top_n xs results rc =
     results @ ranked_from rc (take (result_limit top_n (length results)) (filter enough_words xs))"
proof (induction xs arbitrary: results rc)
  case Nil
  then show ?case by simp
next
  case (Cons p xs)
  show ?case
  proof (cases "enough_words p")
    case False
    then show ?thesis using Cons.IH[of results rc] by (simp add: enough_words_def)
  next
    case True
    show ?thesis
    proof (cases "int (length results) + 1 \<ge> top_n")
      case stop: True
      then have "result_limit top_n (length results) = 1" by (simp add: result_limit_def)
      with True stop show ?thesis by (simp add: enough_words_def Let_def)
    next
      case go: False
      then have l: "result_limit top_n (length results) = Suc (result_limit top_n (Suc (length results)))"
        by (auto simp add: result_limit_def)
      from True go show ?thesis
        using Cons.IH[of "results @ [make_result rc p]" "rc + 1"]
        by (simp add: enough_words_def Let_def l)
    qed
  qed
qed

lemma ranks_ranked_from: "map importance_rank (ranked_from rc ps) = map (\<lambda>i. rc + int i) [0..<length ps]"
proof (induction ps arbitrary: rc)
  case Nil then show ?case by simp
next
  case (Cons p ps)
  have "map (\<lambda>i. rc + int i) [0..<length (p # ps)] = rc # map (\<lambda>i. rc + int i) (map Suc [0..<length ps])"
    by (simp add: upt_conv_Cons map_Suc_upt del: upt_Suc)
  also have "\<dots> = rc # map (\<lambda>i. (rc + 1) + int i) [0..<length ps]" by simp
  finally show ?case using Cons.IH[of "rc + 1"] by (simp add: make_result_def split: prod.splits)
qed

lemma scores_ranked_from: "map similarity_score (ranked_from rc ps) = map snd ps"
  by (induction ps arbitrary: rc) (auto simp: make_result_def split: prod.splits)

lemma length_ranked_from: "length (ranked_from rc ps) = length ps"
  by (induction ps arbitrary: rc) auto

lemma sorted_desc: "sorted_wrt (\<lambda>a b. f a \<ge> f b) (py_sorted_reverse f xs)"
proof -
  have "sorted (map f (sort_key f (rev xs)))" by simp
  then have "sorted_wrt (\<lambda>a b. f a \<le> f b) (sort_key f (rev xs))" by (simp add: sorted_map)
  then show ?thesis unfolding py_sorted_reverse_def by (simp add: sorted_wrt_rev)
qed

lemma stable_desc: "filter (\<lambda>y. f y = k) (py_sorted_reverse f xs) = filter (\<lambda>y. f y = k) xs"
  unfolding py_sorted_reverse_def by (simp add: rev_filter[symmetric] sort_key_stable)

lemma load_loop_eq:
  "load_loop d acc files = Inr cands \<Longrightarrow> cands = acc @ concat (map (file_sections d) files)"
proof (induction files arbitrary: acc)
  case Nil
  then show ?case by simp
next
  case (Cons fi files)
  show ?case
  proof (cases "d (json_path fi)")
    case None
    with Cons show ?thesis by (simp add: file_sections_def)
  next
    case (Some jf)
    show ?thesis
    proof (cases jf)
      case JsonInvalid
      with Some Cons.prems show ?thesis by simp
    next
      case (JsonDoc so)
      show ?thesis
      proof (cases so)
        case None
        with Some JsonDoc Cons show ?thesis by (simp add: file_sections_def)
      next
        case (Some ss)
        with \<open>d (json_path fi) = Some jf\<close> JsonDoc Cons.prems
        have "load_loop d (acc @ file_sections d fi) files = Inr cands"
          by (simp add: file_sections_def)
        from Cons.IH[OF this] show ?thesis by simp
      qed
    qed
  qed
qed

lemma load_loop_nothing:
  "\<forall>fi\<in>set files. d (json_path fi) \<noteq> Some JsonInvalid \<and> file_sections d fi = [] \<Longrightarrow> load_loop d acc files = Inr acc"
  by (induction files arbitrary: acc)
     (auto simp: file_sections_def split: option.splits json_file.splits)

lemma similarities_loop_ok:
  "\<forall>s\<in>set cands. cosine_similarity eng qe (embedding (sec s)) = Inr (score_of s) \<Longrightarrow>
   similarities_loop eng qe cands = Inr (map score_of cands)"
  by (induction cands) auto

lemma similarities_loop_length:
  "similarities_loop eng qe cands = Inr sims \<Longrightarrow> length sims = length cands"
  by (induction cands arbitrary: sims) (auto split: sum.splits)

lemma find_ok:
  assumes "load_sections_with_embeddings d files = Inr cands"
    and "encode eng q = Inr qe"
    and "\<forall>s\<in>set cands. cosine_similarity eng qe (embedding (sec s)) = Inr (score_of s)"
  shows "find_similar_sections_fast eng d q files top_n =
     Inr (ranked_from 1 (take (result_limit top_n 0)
        (filter enough_words (py_sorted_reverse snd (map (\<lambda>s. (s, score_of s)) cands)))))"
proof (cases "cands = []")
  case True
  with assms show ?thesis
    by (simp add: find_similar_sections_fast_def wrap_exception_def py_sorted_reverse_def)
next
  case False
  have z: "zip cands (map score_of cands) = map (\<lambda>s. (s, score_of s)) cands"
    by (induction cands) auto
  have s: "similarities_loop eng qe cands = Inr (map score_of cands)"
    using assms(3) by (rule similarities_loop_ok)
  from False assms(1,2) show ?thesis
    by (simp add: find_similar_sections_fast_def wrap_exception_def s filter_loop_eq z)
qed

lemma split_on_nonempty: "split_on P s \<noteq> []"
  by (induction s) auto

lemma split_acc_split_on:
  "split_acc cur s =
     filter (\<lambda>t. t \<noteq> []) ((cur @ hd (split_on py_isspace s)) # tl (split_on py_isspace s))"
proof (induction s arbitrary: cur)
  case Nil
  then show ?case by simp
next
  case (Cons c cs)
  have ne: "split_on py_isspace cs \<noteq> []" by (rule split_on_nonempty)
  show ?case
  proof (cases "py_isspace c")
    case True
    have "split_acc [] cs = filter (\<lambda>t. t \<noteq> []) (hd (split_on py_isspace cs) # tl (split_on py_isspace cs))"
      using Cons.IH[of "[]"] by simp
    also have "\<dots> = filter (\<lambda>t. t \<noteq> []) (split_on py_isspace cs)" using ne by simp
    finally show ?thesis using True by simp
  next
    case False
    then show ?thesis using Cons.IH[of "cur @ [c]"] by simp
  qed
qed

lemma py_split_split_on: "py_split s = filter (\<lambda>t. t \<noteq> []) (split_on py_isspace s)"
proof -
  have "split_on py_isspace s \<noteq> []" by (rule split_on_nonempty)
  then have "hd (split_on py_isspace s) # tl (split_on py_isspace s) = split_on py_isspace s" by simp
  then show ?thesis unfolding py_split_def split_acc_split_on[of "[]" s] by simp
qed

lemma split_acc_tokens:
  "\<forall>c\<in>set cur. \<not> py_isspace c \<Longrightarrow> w \<in> set (split_acc cur s) \<Longrightarrow> w \<noteq> [] \<and> (\<forall>c\<in>set w. \<not> py_isspace c)"
proof (induction s arbitrary: cur)
  case Nil
  then show ?case by (auto split: if_splits)
next
  case (Cons a s)
  show ?case
  proof (cases "py_isspace a")
    case True
    with Cons.prems have "w = cur \<and> cur \<noteq> [] \<or> w \<in> set (split_acc [] s)"
      by (auto split: if_splits)
    then show ?thesis
    proof
      assume "w = cur \<and> cur \<noteq> []"
      with Cons.prems(1) show ?thesis by simp
    next
      assume "w \<in> set (split_acc [] s)"
      then show ?thesis using Cons.IH[of "[]"] by simp
    qed
  next
    case False
    with Cons.prems have "w \<in> set (split_acc (cur @ [a]) s)" by simp
    moreover from False Cons.prems(1) have "\<forall>c\<in>set (cur @ [a]). \<not> py_isspace c" by simp
    ultimately show ?thesis using Cons.IH[of "cur @ [a]"] by blast
  qed
qed

lemma py_strip_no_space: "\<forall>c\<in>set w. \<not> py_isspace c \<Longrightarrow> py_strip w = w"
proof -
  assume a: "\<forall>c\<in>set w. \<not> py_isspace c"
  have d: "\<And>v. \<forall>c\<in>set v. \<not> py_isspace c \<Longrightarrow> dropWhile py_isspace v = v"
    by (case_tac v) auto
  from a have "dropWhile py_isspace w = w" by (rule d)
  moreover from a have "dropWhile py_isspace (rev w) = rev w" by (intro d) simp
  ultimately show ?thesis by (simp add: py_strip_def)
qed

lemma py_split_strip: "w \<in> set (py_split s) \<Longrightarrow> py_strip w = w \<and> w \<noteq> []"
  unfolding py_split_def using split_acc_tokens[of "[]" w s] py_strip_no_space[of w] by auto

lemma count_words_py_split: "count_words s = length (py_split s)"
proof -
  have "filter (\<lambda>word. py_strip word \<noteq> []) (py_split s) = py_split s"
    using py_split_strip by (intro filter_True) auto
  then show ?thesis by (cases s) (simp_all add: count_words_def py_split_def)
qed

lemma count_words_spec: "count_words s = spec_word_count s"
  by (simp add: count_words_py_split py_split_split_on spec_word_count_def)

lemma ranked_from_member:
  "b \<in> set (ranked_from rc ps) \<Longrightarrow> rc \<le> importance_rank b \<and> (\<exists>p\<in>set ps. b = make_result (importance_rank b) p)"
proof (induction ps arbitrary: rc)
  case Nil
  then show ?case by simp
next
  case (Cons p ps)
  from Cons.prems have "b = make_result rc p \<or> b \<in> set (ranked_from (rc + 1) ps)" by auto
  then show ?case
  proof
    assume "b = make_result rc p"
    then show ?thesis by (auto simp: make_result_def split: prod.splits)
  next
    assume "b \<in> set (ranked_from (rc + 1) ps)"
    from Cons.IH[OF this] show ?thesis by auto
  qed
qed

lemma score_make_result: "similarity_score (make_result rc p) = snd p"
  by (simp add: make_result_def split: prod.splits)

lemma rank_make_result: "importance_rank (make_result rc p) = rc"
  by (simp add: make_result_def split: prod.splits)

lemma ranked_from_order:
  "sorted_wrt (\<lambda>a b. snd a \<ge> snd b) ps \<Longrightarrow>
   sorted_wrt (\<lambda>a b. similarity_score a \<ge> similarity_score b \<and> importance_rank a < importance_rank b)
     (ranked_from rc ps)"
proof (induction ps arbitrary: rc)
  case Nil
  then show ?case by simp
next
  case (Cons p ps)
  have "similarity_score b \<le> snd p \<and> rc < importance_rank b" if "b \<in> set (ranked_from (rc + 1) ps)" for b
  proof -
    from ranked_from_member[OF that] obtain p' where
      r: "rc + 1 \<le> importance_rank b" and p': "p' \<in> set ps" and b: "b = make_result (importance_rank b) p'"
      by blast
    from b have "similarity_score b = snd p'" by (metis score_make_result)
    with Cons.prems p' r show ?thesis by auto
  qed
  moreover from Cons have "sorted_wrt (\<lambda>a b. similarity_score a \<ge> similarity_score b \<and> importance_rank a < importance_rank b)
     (ranked_from (rc + 1) ps)" by simp
  ultimately show ?case by (simp add: score_make_result rank_make_result)
qed

lemma sorted_wrt_pair:
  "sorted_wrt R xs \<Longrightarrow> a \<in> set xs \<Longrightarrow> b \<in> set xs \<Longrightarrow> a = b \<or> R a b \<or> R b a"
  by (induction xs) auto

lemma unrank_ranked_from:
  "map (\<lambda>r. r\<lparr>importance_rank := 0\<rparr>) (ranked_from rc ps) = map (make_result 0) ps"
  by (induction ps arbitrary: rc) (auto simp: make_result_def split: prod.splits)

lemma ranked_ties:
  "map (\<lambda>r. r\<lparr>importance_rank := 0\<rparr>) (filter (\<lambda>r. similarity_score r = k) (ranked_from rc ps))
   = map (make_result 0) (filter (\<lambda>p. snd p = k) ps)"
  by (induction ps arbitrary: rc) (auto simp: make_result_def split: prod.splits)

lemma search_outcome_ranks:
  "map importance_rank (search_outcome top_n scored) = map int [1..<Suc (length (search_outcome top_n scored))]"
proof -
  have e: "map (\<lambda>i. 1 + int i) [0..<n] = map int [1..<Suc n]" for n
    by (induction n) auto
  have "map importance_rank (search_outcome top_n scored)
      = map (\<lambda>i. 1 + int i) [0..<length (search_outcome top_n scored)]"
    unfolding search_outcome_def ranks_ranked_from length_ranked_from ..
  then show ?thesis unfolding e .
qed

lemma search_outcome_order:
  assumes "a \<in> set (search_outcome top_n scored)" and "b \<in> set (search_outcome top_n scored)"
    and "similarity_score a > similarity_score b"
  shows "importance_rank a < importance_rank b"
proof -
  have "sorted_wrt (\<lambda>a b. snd a \<ge> snd b) (take (result_limit top_n 0) (filter enough_words (py_sorted_reverse snd scored)))"
    by (intro sorted_wrt_take sorted_wrt_filter sorted_desc)
  then have "sorted_wrt (\<lambda>a b. similarity_score a \<ge> similarity_score b \<and> importance_rank a < importance_rank b)
     (search_outcome top_n scored)"
    unfolding search_outcome_def by (rule ranked_from_order)
  from sorted_wrt_pair[OF this assms(1,2)] assms(3) show ?thesis by auto
qed

lemma search_outcome_ties:
  "prefix (map (\<lambda>r. r\<lparr>importance_rank := 0\<rparr>) (filter (\<lambda>r. similarity_score r = k) (search_outcome top_n (map (\<lambda>s. (s, score_of s)) cands))))
          (map (\<lambda>s. make_result 0 (s, k))
             (filter (\<lambda>s. score_of s = k \<and> 15 \<le> count_words (content (sec s))) cands))"
proof -
  let ?scored = "map (\<lambda>s. (s, score_of s)) cands"
  let ?kept = "filter enough_words (py_sorted_reverse snd ?scored)"
  have "prefix (take (result_limit top_n 0) ?kept) ?kept" by (rule take_is_prefix)
  then have "prefix (filter (\<lambda>p. snd p = k) (take (result_limit top_n 0) ?kept)) (filter (\<lambda>p. snd p = k) ?kept)"
    by (rule filter_mono_prefix)
  then have "prefix (map (make_result 0) (filter (\<lambda>p. snd p = k) (take (result_limit top_n 0) ?kept)))
                    (map (make_result 0) (filter (\<lambda>p. snd p = k) ?kept))"
    by (rule map_mono_prefix)
  moreover have "filter (\<lambda>p. snd p = k) ?kept = filter enough_words (filter (\<lambda>p. snd p = k) ?scored)"
  proof -
    have "filter (\<lambda>p. snd p = k) ?kept = filter enough_words (filter (\<lambda>p. snd p = k) (py_sorted_reverse snd ?scored))"
      by (simp add: conj_commute)
    then show ?thesis unfolding stable_desc .
  qed
  moreover have "map (make_result 0) (filter enough_words (filter (\<lambda>p. snd p = k) ?scored))
     = map (\<lambda>s. make_result 0 (s, k)) (filter (\<lambda>s. score_of s = k \<and> 15 \<le> count_words (content (sec s))) cands)"
    by (induction cands) (auto simp: enough_words_def)
  ultimately show ?thesis by (simp add: search_outcome_def ranked_ties)
qed

lemma ex_load: "load_sections_with_embeddings ex_disk ex_files = Inr ex_cands"
  by (simp add: load_sections_with_embeddings_def ex_disk_def ex_files_def ex_cands_def)

lemma ex_encode: "encode ex_engine ''query'' = Inr [1]"
  by (simp add: ex_engine_def)

lemma ex_cosine:
  "\<forall>s\<in>set ex_cands. cosine_similarity ex_engine [1] (embedding (sec s)) = Inr (hd (embedding (sec s)))"
  by (simp add: ex_engine_def ex_cands_def ex_section_def)

lemma ex_long_words: "count_words ex_long = 15"
  by (simp add: count_words_def ex_long_def py_split_def py_strip_def py_isspace_def)

lemma ex_short_words: "count_words ''too short'' = 2"
  by (simp add: count_words_def py_split_def py_strip_def py_isspace_def)

lemma ex_run:
  "find_similar_sections_fast ex_engine ex_disk ''query'' ex_files 5 =
     Inr [make_result 1 (ex_cands ! 3, 9 / 10), make_result 2 (ex_cands ! 0, 82 / 100),
          make_result 3 (ex_cands ! 2, 82 / 100)]"
  by (simp add: find_similar_sections_fast_def wrap_exception_def ex_load ex_encode)
     (simp add: ex_cands_def ex_engine_def ex_section_def py_sorted_reverse_def ex_long_words ex_short_words)

lemma find_returns:
  assumes "load_sections_with_embeddings d processed_files = Inr cands"
    and "encode eng selected_text = Inr qe"
    and "\<forall>s\<in>set cands. cosine_similarity eng qe (embedding (sec s)) = Inr (score_of s)"
  shows "find_similar_sections_fast eng d selected_text processed_files top_n =
     Inr (search_outcome top_n (map (\<lambda>s. (s, score_of s)) cands))"
  unfolding search_outcome_def using assms by (rule find_ok)

lemma find_Inr_outcome:
  assumes "find_similar_sections_fast eng d selected_text processed_files top_n = Inr results"
  shows "\<exists>cands sims. load_sections_with_embeddings d processed_files = Inr cands
           \<and> length sims = length cands
           \<and> results = search_outcome top_n (zip cands sims)"
proof -
  from assms obtain cands where l: "load_sections_with_embeddings d processed_files = Inr cands"
    by (auto simp: find_similar_sections_fast_def wrap_exception_def split: sum.splits)
  show ?thesis
  proof (cases "cands = []")
    case True
    with assms l have "results = search_outcome top_n (zip cands [])"
      by (simp add: find_similar_sections_fast_def wrap_exception_def search_outcome_def
          py_sorted_reverse_def)
    with l True show ?thesis by auto
  next
    case False
    with assms l obtain qe sims where "similarities_loop eng qe cands = Inr sims"
      and r: "results = filter_loop top_n (py_sorted_reverse snd (zip cands sims)) [] 1"
      by (auto simp: find_similar_sections_fast_def wrap_exception_def Let_def split: sum.splits)
    then have "length sims = length cands" by (simp add: similarities_loop_length)
    with l r show ?thesis by (auto simp: filter_loop_eq search_outcome_def)
  qed
qed

lemma search_outcome_member:
  assumes "r \<in> set (search_outcome top_n scored)"
  shows "\<exists>p\<in>set scored. r = make_result (importance_rank r) p \<and> enough_words p"
proof -
  from assms obtain p where
    p: "p \<in> set (take (result_limit top_n 0) (filter enough_words (py_sorted_reverse snd scored)))"
    and r: "r = make_result (importance_rank r) p"
    unfolding search_outcome_def using ranked_from_member by blast
  from p have "p \<in> set (filter enough_words (py_sorted_reverse snd scored))"
    by (rule in_set_takeD)
  then have "p \<in> set scored \<and> enough_words p" by (simp add: py_sorted_reverse_def)
  with r show ?thesis by blast
qed

text \<open>
  Claim C4. When the sections load and the similarities are computed, the search returns
  a list in which a result with a strictly higher similarity score has a strictly
  smaller rank; the candidates are the sections of the files in the order of
  \<open>processed_files\<close>, each file's sections in their stored order; for every score
  \<open>k\<close> the results with score \<open>k\<close> are, in the same order, the first of the
  candidates with score \<open>k\<close> and at least 15 words; and the ranks are
  \<open>1, 2, ..., length results\<close>.
\<close>

theorem ranking_monotone_stable_dense:
  assumes "load_sections_with_embeddings d processed_files = Inr cands"
    and "encode eng selected_text = Inr qe"
    and "\<forall>s\<in>set cands. cosine_similarity eng qe (embedding (sec s)) = Inr (score_of s)"
  shows "\<exists>results.
      find_similar_sections_fast eng d selected_text processed_files top_n = Inr results
    \<and> (\<forall>a\<in>set results. \<forall>b\<in>set results.
          similarity_score a > similarity_score b \<longrightarrow> importance_rank a < importance_rank b)
    \<and> cands = concat (map (file_sections d) processed_files)
    \<and> (\<forall>k. prefix
          (map (\<lambda>r. r\<lparr>importance_rank := 0\<rparr>) (filter (\<lambda>r. similarity_score r = k) results))
          (map (\<lambda>s. make_result 0 (s, k))
             (filter (\<lambda>s. score_of s = k \<and> 15 \<le> count_words (content (sec s))) cands)))
    \<and> map importance_rank results = map int [1..<Suc (length results)]"
proof -
  let ?rs = "search_outcome top_n (map (\<lambda>s. (s, score_of s)) cands)"
  have "find_similar_sections_fast eng d selected_text processed_files top_n = Inr ?rs"
    using assms by (rule find_returns)
  moreover have "\<forall>a\<in>set ?rs. \<forall>b\<in>set ?rs.
          similarity_score a > similarity_score b \<longrightarrow> importance_rank a < importance_rank b"
    using search_outcome_order by blast
  moreover have "cands = concat (map (file_sections d) processed_files)"
    using assms(1) load_loop_eq[of d "[]" processed_files cands]
    by (simp add: load_sections_with_embeddings_def)
  moreover have "\<forall>k. prefix
          (map (\<lambda>r. r\<lparr>importance_rank := 0\<rparr>) (filter (\<lambda>r. similarity_score r = k) ?rs))
          (map (\<lambda>s. make_result 0 (s, k))
             (filter (\<lambda>s. score_of s = k \<and> 15 \<le> count_words (content (sec s))) cands))"
    using search_outcome_ties by blast
  moreover have "map importance_rank ?rs = map int [1..<Suc (length ?rs)]"
    by (rule search_outcome_ranks)
  ultimately show ?thesis by blast
qed

theorem ranking_monotone_stable_dense_witness:
  "\<exists>results.
      find_similar_sections_fast ex_engine ex_disk ''query'' ex_files 5 = Inr results
    \<and> (\<forall>a\<in>set results. \<forall>b\<in>set results.
          similarity_score a > similarity_score b \<longrightarrow> importance_rank a < importance_rank b)
    \<and> ex_cands = concat (map (file_sections ex_disk) ex_files)
    \<and> (\<forall>k. prefix
          (map (\<lambda>r. r\<lparr>importance_rank := 0\<rparr>) (filter (\<lambda>r. similarity_score r = k) results))
          (map (\<lambda>s. make_result 0 (s, k))
             (filter (\<lambda>s. hd (embedding (sec s)) = k \<and> 15 \<le> count_words (content (sec s))) ex_cands)))
    \<and> map importance_rank results = map int [1..<Suc (length results)]"
  by (rule ranking_monotone_stable_dense [OF ex_load ex_encode ex_cosine])

text \<open>
  Claim C5. Every result the similarity search returns has a word count of at least 15;
  that word count is \<open>count_words\<close> of its content, which is the number of non-empty
  tokens obtained by cutting the content at whitespace; and the result's content is
  the content of a loaded section with at least 15 such tokens.
\<close>

theorem results_have_fifteen_words:
  assumes "find_similar_sections_fast eng d selected_text processed_files top_n = Inr results"
    and "r \<in> set results"
  shows "15 \<le> word_count r
       \<and> word_count r = count_words (res_content r)
       \<and> count_words (res_content r) = spec_word_count (res_content r)
       \<and> (\<exists>cands s. load_sections_with_embeddings d processed_files = Inr cands
             \<and> s \<in> set cands \<and> res_content r = content (sec s)
             \<and> 15 \<le> spec_word_count (content (sec s)))"
proof -
  from find_Inr_outcome[OF assms(1)] obtain cands sims where
    l: "load_sections_with_embeddings d processed_files = Inr cands"
    and rs: "results = search_outcome top_n (zip cands sims)" by blast
  from assms(2) rs search_outcome_member obtain p where
    p: "p \<in> set (zip cands sims)" and r: "r = make_result (importance_rank r) p"
    and w: "enough_words p" by blast
  have "res_content (make_result (importance_rank r) p) = content (sec (fst p))"
    and "word_count (make_result (importance_rank r) p) = count_words (content (sec (fst p)))"
    by (simp_all add: make_result_def split: prod.splits)
  with r have c: "res_content r = content (sec (fst p))"
    and wc: "word_count r = count_words (content (sec (fst p)))"
    by simp_all
  from p have "fst p \<in> set cands" by (metis in_set_zipE prod.collapse)
  with l c wc w show ?thesis
    by (auto simp: enough_words_def count_words_spec)
qed

theorem results_have_fifteen_words_witness:
  "15 \<le> word_count (make_result 2 (ex_cands ! 0, 82 / 100))
       \<and> word_count (make_result 2 (ex_cands ! 0, 82 / 100)) = count_words (res_content (make_result 2 (ex_cands ! 0, 82 / 100)))
       \<and> count_words (res_content (make_result 2 (ex_cands ! 0, 82 / 100))) = spec_word_count (res_content (make_result 2 (ex_cands ! 0, 82 / 100)))
       \<and> (\<exists>cands s. load_sections_with_embeddings ex_disk ex_files = Inr cands
             \<and> s \<in> set cands \<and> res_content (make_result 2 (ex_cands ! 0, 82 / 100)) = content (sec s)
             \<and> 15 \<le> spec_word_count (content (sec s)))"
  by (rule results_have_fifteen_words [OF ex_run]) simp

text \<open>
  Claim C9. A search whose corpus yields no candidate section returns the empty list and
  raises nothing, for every query and every \<open>top_n\<close>: when the loaded list is empty,
  when \<open>processed_files\<close> is empty, and when every entry contributes no section.
\<close>

theorem empty_corpus_empty_result:
  "(load_sections_with_embeddings d processed_files = Inr [] \<longrightarrow>
      find_similar_sections_fast eng d selected_text processed_files top_n = Inr [])
   \<and> find_similar_sections_fast eng d selected_text [] top_n = Inr []
   \<and> ((\<forall>fi\<in>set processed_files. contributes_nothing d fi) \<longrightarrow>
      find_similar_sections_fast eng d selected_text processed_files top_n = Inr [])"
proof -
  have a: "find_similar_sections_fast eng d selected_text fs top_n = Inr []"
    if "load_sections_with_embeddings d fs = Inr []" for fs
    using that by (simp add: find_similar_sections_fast_def wrap_exception_def)
  have b: "load_sections_with_embeddings d fs = Inr []"
    if "\<forall>fi\<in>set fs. contributes_nothing d fi" for fs
    unfolding load_sections_with_embeddings_def
  proof (rule load_loop_nothing, rule ballI)
    fix fi assume "fi \<in> set fs"
    with that have "contributes_nothing d fi" by blast
    then show "d (json_path fi) \<noteq> Some JsonInvalid \<and> file_sections d fi = []"
      by (auto simp: contributes_nothing_def file_sections_def split: option.splits json_file.splits)
  qed
  from a b[of "[]"] a[OF b] show ?thesis by auto
qed

theorem empty_corpus_empty_result_witness:
  "contributes_nothing ex_disk \<lparr>json_path = ''c.json'', original_file = ''c.pdf''\<rparr>
   \<and> contributes_nothing ex_disk \<lparr>json_path = ''d.json'', original_file = ''d.pdf''\<rparr>
   \<and> find_similar_sections_fast ex_engine ex_disk ''query''
        [\<lparr>json_path = ''c.json'', original_file = ''c.pdf''\<rparr>,
         \<lparr>json_path = ''d.json'', original_file = ''d.pdf''\<rparr>] 5 = Inr []"
  using empty_corpus_empty_result [of ex_disk
      "[\<lparr>json_path = ''c.json'', original_file = ''c.pdf''\<rparr>,
        \<lparr>json_path = ''d.json'', original_file = ''d.pdf''\<rparr>]" ex_engine "''query''" 5]
  by (simp add: contributes_nothing_def ex_disk_def)

text \<open>
  Claim C10. With \<open>top_n \<le> 0\<close> and at least one candidate section of at least 15
  words, the search returns exactly one result.
\<close>

theorem nonpositive_top_n_one_result:
  assumes "load_sections_with_embeddings d processed_files = Inr cands"
    and "encode eng selected_text = Inr qe"
    and "\<forall>s\<in>set cands. cosine_similarity eng qe (embedding (sec s)) = Inr (score_of s)"
    and "top_n \<le> 0"
    and "\<exists>s\<in>set cands. 15 \<le> count_words (content (sec s))"
  shows "\<exists>results. find_similar_sections_fast eng d selected_text processed_files top_n = Inr results
           \<and> length results = 1"
proof -
  let ?scored = "map (\<lambda>s. (s, score_of s)) cands"
  let ?kept = "filter enough_words (py_sorted_reverse snd ?scored)"
  from assms(5) obtain s where "s \<in> set cands" "15 \<le> count_words (content (sec s))" by blast
  then have "(s, score_of s) \<in> set ?kept"
    by (auto simp: py_sorted_reverse_def enough_words_def)
  then have "?kept \<noteq> []" by (metis empty_iff empty_set)
  then have "length (take 1 ?kept) = 1" by (cases ?kept) auto
  moreover from assms(4) have "result_limit top_n 0 = 1" by (simp add: result_limit_def)
  ultimately have "length (search_outcome top_n ?scored) = 1"
    by (simp add: search_outcome_def length_ranked_from)
  with find_returns[OF assms(1-3)] show ?thesis by blast
qed

theorem nonpositive_top_n_one_result_witness:
  "\<exists>results. find_similar_sections_fast ex_engine ex_disk ''query'' ex_files (- 3) = Inr results
           \<and> length results = 1"
proof (rule nonpositive_top_n_one_result [OF ex_load ex_encode ex_cosine])
  show "(- 3 :: int) \<le> 0" by simp
  show "\<exists>s\<in>set ex_cands. 15 \<le> count_words (content (sec s))"
    by (simp add: ex_cands_def ex_section_def ex_long_words)
qed

lemma simple_loop_eq:
  "simple_loop xs (t, out) =
     (if filter is_title_block xs = [] then t else item_text (last (filter is_title_block xs)),
      out @ map (\<lambda>b. make_entry (heading_level b) b)
              (filter (\<lambda>b. \<not> is_title_block b \<and> heading_level b \<noteq> ''None'') xs))"
  by (induction xs arbitrary: t out) auto

lemma ex_two_titles_sorted:
  "py_sorted (\<lambda>x. (page_no x, y_pos_relative x)) ex_two_titles
     = [ex_item ''First line'' 0 0.02 1 False 2, ex_item ''Second line'' 0 0.05 0.95 False 2]"
  by (simp add: py_sorted_def ex_two_titles_def ex_item_def)

lemma outline_simple:
  "outline (predict_headings_simple input_data) =
       map (\<lambda>b. make_entry (heading_level b) b)
         (filter (\<lambda>b. \<not> is_title_block b \<and> heading_level b \<noteq> ''None'')
            (py_sorted (\<lambda>x. (page_no x, y_pos_relative x)) input_data))"
  by (simp add: predict_headings_simple_def simple_loop_eq Let_def)

lemma title_simple:
  "title (predict_headings_simple input_data) =
     (if filter is_title_block (py_sorted (\<lambda>x. (page_no x, y_pos_relative x)) input_data) = [] then []
      else py_strip (item_text (last (filter is_title_block
             (py_sorted (\<lambda>x. (page_no x, y_pos_relative x)) input_data)))))"
proof -
  have e: "py_strip [] = []" by (simp add: py_strip_def)
  show ?thesis by (simp add: predict_headings_simple_def simple_loop_eq Let_def e)
qed

text \<open>
  Claim C1, amended. Under the heuristic classifier the title is the stripped text of the
  last block, in (page, y-position) order, that satisfies the title condition (the
  empty string when no block does), and the outline consists of the entries of the
  blocks that do not satisfy the title condition and whose level is not \<open>None\<close>, in
  that order: every block that satisfies the title condition is left out of it.
\<close>

theorem title_is_last_qualifying_block:
  "title (predict_headings_simple input_data) =
     (if filter is_title_block (py_sorted (\<lambda>x. (page_no x, y_pos_relative x)) input_data) = [] then []
      else py_strip (item_text (last (filter is_title_block
             (py_sorted (\<lambda>x. (page_no x, y_pos_relative x)) input_data)))))
   \<and> outline (predict_headings_simple input_data) =
       map (\<lambda>b. make_entry (heading_level b) b)
         (filter (\<lambda>b. \<not> is_title_block b \<and> heading_level b \<noteq> ''None'')
            (py_sorted (\<lambda>x. (page_no x, y_pos_relative x)) input_data))"
  using title_simple [of input_data] outline_simple [of input_data] by (rule conjI)

text \<open>
  Claim C1 as stated fails: with two qualifying blocks on the first page the title is the
  text of the second one in sorted order, not of the first.
\<close>

theorem first_title_block_does_not_win:
  "filter is_title_block (py_sorted (\<lambda>x. (page_no x, y_pos_relative x)) ex_two_titles)
     = [ex_item ''First line'' 0 0.02 1 False 2, ex_item ''Second line'' 0 0.05 0.95 False 2]
   \<and> title (predict_headings_simple ex_two_titles) = ''Second line''
   \<and> title (predict_headings_simple ex_two_titles)
       \<noteq> item_text (hd (filter is_title_block
             (py_sorted (\<lambda>x. (page_no x, y_pos_relative x)) ex_two_titles)))"
  by (simp add: predict_headings_simple_def ex_two_titles_sorted)
     (simp add: ex_item_def is_title_block_def py_strip_def py_isspace_def heading_level_def)

text \<open>Scenario 1 of the specification, through the theorem of claim C1.\<close>

theorem title_is_last_qualifying_block_witness:
  "title (predict_headings_simple [ex_item ''Annual Report 2024'' 0 0.05 0.95 False 3]) = ''Annual Report 2024''
   \<and> outline (predict_headings_simple [ex_item ''Annual Report 2024'' 0 0.05 0.95 False 3]) = []"
  using title_is_last_qualifying_block [of "[ex_item ''Annual Report 2024'' 0 0.05 0.95 False 3]"]
  by (simp add: py_sorted_def is_title_block_def ex_item_def py_strip_def py_isspace_def)

text \<open>
  Claim C8. Under the heuristic classifier a block that does not satisfy the title
  condition, with a font-size ratio above 0.8, bold and of at most 10 words, has the
  level \<open>H1\<close> and its entry, with the page index plus one as page, is in the outline.
\<close>

theorem bold_large_short_block_is_H1:
  assumes "item \<in> set input_data"
    and "\<not> is_title_block item"
    and "font_size_relative_to_max_pdf item > 0.8"
    and "is_bold item"
    and "num_words item \<le> 10"
  shows "heading_level item = ''H1''
       \<and> \<lparr>entry_level = ''H1'', entry_text = item_text item, entry_page = int (page_no item) + 1\<rparr>
           \<in> set (outline (predict_headings_simple input_data))"
proof -
  from assms(3-5) have h: "heading_level item = ''H1''" by (simp add: heading_level_def)
  let ?sorted = "py_sorted (\<lambda>x. (page_no x, y_pos_relative x)) input_data"
  from assms(1) have "item \<in> set ?sorted" by (simp add: py_sorted_def)
  with assms(2) h have "item \<in> set (filter (\<lambda>b. \<not> is_title_block b \<and> heading_level b \<noteq> ''None'') ?sorted)"
    by simp
  then have "make_entry (heading_level item) item
      \<in> set (map (\<lambda>b. make_entry (heading_level b) b)
           (filter (\<lambda>b. \<not> is_title_block b \<and> heading_level b \<noteq> ''None'') ?sorted))"
    by (simp only: set_map) (rule imageI)
  then have "make_entry ''H1'' item \<in> set (outline (predict_headings_simple input_data))"
    by (simp only: h outline_simple)
  with h show ?thesis by (simp add: make_entry_def)
qed

text \<open>Scenario 2 of the specification: ratio 0.85, bold, 8 words, page index 2.\<close>

theorem bold_large_short_block_is_H1_witness:
  "heading_level (ex_item ''Results of the second field study'' 2 0.4 0.85 True 8) = ''H1''
   \<and> \<lparr>entry_level = ''H1'', entry_text = ''Results of the second field study'', entry_page = 3\<rparr>
       \<in> set (outline (predict_headings_simple
            [ex_item ''Body text'' 2 0.6 0.4 False 40,
             ex_item ''Results of the second field study'' 2 0.4 0.85 True 8]))"
  using bold_large_short_block_is_H1 [of "ex_item ''Results of the second field study'' 2 0.4 0.85 True 8"
      "[ex_item ''Body text'' 2 0.6 0.4 False 40,
        ex_item ''Results of the second field study'' 2 0.4 0.85 True 8]"]
  by (simp add: ex_item_def is_title_block_def)

lemma spans_loop_eq:
  "spans_loop ss (t, u) = (t @ concat (map span_text ss), u \<or> list_ex (\<lambda>s. flags s AND 4 \<noteq> 0) ss)"
  by (induction ss arbitrary: t u) auto

lemma lines_loop_eq:
  "lines_loop ls (lt, u) =
     (lt @ filter (\<lambda>t. py_strip t \<noteq> []) (map line_text_of ls),
      u \<or> list_ex (\<lambda>l. list_ex (\<lambda>s. flags s AND 4 \<noteq> 0) (spans l)) ls)"
  by (induction ls arbitrary: lt u) (auto simp: spans_loop_eq line_text_of_def)

lemma scan_block_None:
  "scan_block pn pg mp i b = Inr None \<longleftrightarrow> \<not> kept_block b"
  by (auto simp: scan_block_def lines_loop_eq kept_block_def split: sum.splits)

lemma scan_block_Some:
  assumes "scan_block pn pg mp i b = Inr (Some bd)"
  shows "kept_block b \<and> bd_is_bold bd = first_span_bold b \<and> bd_is_underlined bd = any_span_underlined b"
  using assms
  by (auto simp: scan_block_def lines_loop_eq kept_block_def first_span_bold_def
        any_span_underlined_def split: sum.splits if_splits)

lemma blocks_loop_flags:
  "blocks_loop pn pg mp i bs acc = Inr pbs \<Longrightarrow>
   map bd_flags pbs = map bd_flags acc @ map block_flags (filter kept_block bs)"
proof (induction bs arbitrary: i acc)
  case Nil
  then show ?case by simp
next
  case (Cons b bs)
  show ?case
  proof (cases "scan_block pn pg mp i b")
    case (Inl e)
    with Cons.prems show ?thesis by simp
  next
    case (Inr r)
    show ?thesis
    proof (cases r)
      case None
      with Inr have "\<not> kept_block b" by (simp add: scan_block_None)
      moreover from None Inr Cons.prems have "blocks_loop pn pg mp (i + 1) bs acc = Inr pbs" by simp
      ultimately show ?thesis using Cons.IH by simp
    next
      case (Some bd)
      with Inr have k: "kept_block b" and f: "bd_flags bd = block_flags b"
        using scan_block_Some[of pn pg mp i b bd] by (simp_all add: bd_flags_def block_flags_def)
      from Some Inr Cons.prems have "blocks_loop pn pg mp (i + 1) bs (acc @ [bd]) = Inr pbs" by simp
      from Cons.IH[OF this] k f show ?thesis by simp
    qed
  qed
qed

lemma add_spacing_flags: "map bd_flags (add_spacing ph pbs) = map bd_flags pbs"
proof -
  have "map bd_flags (add_spacing ph pbs) = map (\<lambda>i. bd_flags (pbs ! i)) [0..<length pbs]"
    by (simp add: add_spacing_def bd_flags_def)
  also have "\<dots> = map bd_flags (map (\<lambda>i. pbs ! i) [0..<length pbs])" by simp
  also have "\<dots> = map bd_flags pbs" by (simp only: map_nth)
  finally show ?thesis .
qed

lemma pages_loop_flags:
  "pages_loop pn doc raw = Inr out \<Longrightarrow>
   map bd_flags out = map bd_flags raw @ map block_flags (kept_blocks doc)"
proof (induction doc arbitrary: pn raw)
  case Nil
  then show ?case by (simp add: kept_blocks_def)
next
  case (Cons pg doc)
  from Cons.prems obtain pbs where
    b: "blocks_loop pn pg (max_or_one (page_font_sizes pg)) 0 (blocks pg) [] = Inr pbs"
    and r: "pages_loop (pn + 1) doc (raw @ add_spacing (rect_height pg) pbs) = Inr out"
    by (auto split: sum.splits)
  from blocks_loop_flags[OF b] have "map bd_flags pbs = map block_flags (filter kept_block (blocks pg))"
    by simp
  with Cons.IH[OF r] show ?case by (simp add: add_spacing_flags kept_blocks_def)
qed

lemma map_exn_all2:
  "map_exn f xs = Inr ys \<Longrightarrow> list_all2 (\<lambda>x y. f x = Inr y) xs ys"
  by (induction xs arbitrary: ys) (auto split: sum.splits)

lemma block_features_flags:
  "block_features sw m blk = Inr ft \<Longrightarrow> (is_bold ft, is_underlined ft) = bd_flags blk"
  by (auto simp: block_features_def bind_exn_def bd_flags_def Let_def split: sum.splits)

lemma features_flags:
  "map_exn (block_features sw m) raw = Inr feats \<Longrightarrow>
   map (\<lambda>ft. (is_bold ft, is_underlined ft)) feats = map bd_flags raw"
proof -
  assume "map_exn (block_features sw m) raw = Inr feats"
  then have "list_all2 (\<lambda>x y. block_features sw m x = Inr y) raw feats" by (rule map_exn_all2)
  then show ?thesis
    by (induction rule: list_all2_induct) (auto dest: block_features_flags)
qed

lemma ex_underline_kept: "kept_blocks ex_underline_pdf = [ex_underline_block]"
  by (simp add: kept_blocks_def ex_underline_pdf_def kept_block_def ex_underline_block_def
      is_table_block_def line_text_of_def ex_span_def py_strip_def py_isspace_def)

lemma round_half_even_of_int: "round_half_even (of_int n) = n"
  by (simp add: round_half_even_def)

lemma round_half_even_numeral: "round_half_even (numeral k) = numeral k"
  using round_half_even_of_int [of "numeral k"] by simp

lemma py_round_tie: "py_round (289 / 4) 1 = 361 / 5 \<and> py_round (81 / 8) 2 = 253 / 25"
  by (simp add: py_round_def round_half_even_def)

lemma ex_underline_raw:
  "pages_loop 0 ex_underline_pdf [] =
     Inr [\<lparr>bd_text = ''Plain underlined'', font_size = 12, bd_bbox = (72, 90, 300, 110),
           page_num = 0, page_height = 800, page_width = 600, max_font_size_page = 12,
           bd_is_bold = True, bd_is_underlined = True, block_index = 0,
           bd_space_above = 90, bd_space_below = 690\<rparr>]"
  by (simp add: ex_underline_pdf_def ex_underline_block_def scan_block_def is_table_block_def
      lines_loop_eq line_text_of_def ex_span_def first_span_def smart_join_lines_def
      py_strip_def py_isspace_def py_round_def round_half_even_numeral max_or_one_def
      page_font_sizes_def
      add_spacing_def bbox1_def bbox3_def)

lemma ex_underline_features:
  "extract_features_from_pdf ex_open ex_processor ''underline.pdf'' =
     Inr [\<lparr>item_text = ''Plain underlined'', font_size_relative_to_max_pdf = 1,
           font_size_relative_to_max_page = 1, is_bold = True, num_words = 2,
           punctuation = ''NULL'', x_pos_relative = 72 / 600, y_pos_relative = 90 / 800,
           page_no = 0, title_case_ratio = 1 / 2, stopword_ratio = 0,
           space_above = 90 / 800, space_below = 690 / 800, is_underlined = True\<rparr>]"
  by (simp add: extract_features_from_pdf_def ex_open_def ex_underline_raw max_or_one_def
      block_features_def bind_exn_def py_div_def ex_processor_def bbox0_def bbox1_def
      py_split_def py_strip_def py_isspace_def in_string_punctuation_def py_isupper_def
      py_lower_def Let_def)

text \<open>
  Claim C3, amended. For every block that yields a feature vector, the bold flag is
  taken from the style flags of the first span of the block's first line (bit 16),
  and the underline flag is true exactly when some span of some line of the block has
  bit 4 set, whichever span that is.
\<close>

theorem bold_from_first_span_underline_from_any_span:
  assumes "fitz_open pdf_path = Inr doc"
    and "extract_features_from_pdf fitz_open self pdf_path = Inr feats"
  shows "map is_bold feats = map first_span_bold (kept_blocks doc)
       \<and> map is_underlined feats = map any_span_underlined (kept_blocks doc)"
proof -
  from assms obtain raw where r: "pages_loop 0 doc [] = Inr raw"
    and f: "map_exn (block_features (stop_words self) (max_or_one (map font_size raw))) raw = Inr feats"
    by (auto simp: extract_features_from_pdf_def split: sum.splits)
  have "map (\<lambda>ft. (is_bold ft, is_underlined ft)) feats = map bd_flags raw"
    using f by (rule features_flags)
  also have "\<dots> = map block_flags (kept_blocks doc)"
    using pages_loop_flags[OF r] by simp
  finally have e: "map (\<lambda>ft. (is_bold ft, is_underlined ft)) feats = map block_flags (kept_blocks doc)" .
  have "map is_bold feats = map fst (map (\<lambda>ft. (is_bold ft, is_underlined ft)) feats)"
    by simp
  also have "\<dots> = map first_span_bold (kept_blocks doc)"
    unfolding e by (simp add: block_flags_def)
  finally have b: "map is_bold feats = map first_span_bold (kept_blocks doc)" .
  have "map is_underlined feats = map snd (map (\<lambda>ft. (is_bold ft, is_underlined ft)) feats)"
    by simp
  also have "\<dots> = map any_span_underlined (kept_blocks doc)"
    unfolding e by (simp add: block_flags_def)
  finally show ?thesis using b by simp
qed

theorem bold_from_first_span_underline_from_any_span_witness:
  "map is_bold [\<lparr>item_text = ''Plain underlined'', font_size_relative_to_max_pdf = 1,
           font_size_relative_to_max_page = 1, is_bold = True, num_words = 2,
           punctuation = ''NULL'', x_pos_relative = 72 / 600, y_pos_relative = 90 / 800,
           page_no = 0, title_case_ratio = 1 / 2, stopword_ratio = 0,
           space_above = 90 / 800, space_below = 690 / 800, is_underlined = True\<rparr>]
     = map first_span_bold (kept_blocks ex_underline_pdf)
   \<and> map is_underlined [\<lparr>item_text = ''Plain underlined'', font_size_relative_to_max_pdf = 1,
           font_size_relative_to_max_page = 1, is_bold = True, num_words = 2,
           punctuation = ''NULL'', x_pos_relative = 72 / 600, y_pos_relative = 90 / 800,
           page_no = 0, title_case_ratio = 1 / 2, stopword_ratio = 0,
           space_above = 90 / 800, space_below = 690 / 800, is_underlined = True\<rparr>]
     = map any_span_underlined (kept_blocks ex_underline_pdf)"
proof (rule bold_from_first_span_underline_from_any_span [OF _ ex_underline_features])
  show "ex_open ''underline.pdf'' = Inr ex_underline_pdf" by (simp add: ex_open_def)
qed

text \<open>
  Claim C3 as stated fails: a block whose first span is not underlined and whose second
  span is underlined gets \<open>is_underlined = True\<close>.
\<close>

theorem underline_not_from_first_span:
  "kept_blocks ex_underline_pdf = [ex_underline_block]
   \<and> \<not> first_span_underlined ex_underline_block
   \<and> map is_underlined
        (case extract_features_from_pdf ex_open ex_processor ''underline.pdf'' of
           Inr feats \<Rightarrow> feats | Inl e \<Rightarrow> []) = [True]"
  by (simp add: ex_underline_kept ex_underline_features)
     (simp add: first_span_underlined_def first_span_def ex_underline_block_def ex_span_def)

lemma ex_no_schema: "expected_cols (with_model ex_model_no_schema) ex_model_no_schema = None"
  by (simp add: expected_cols_def with_model_def ex_model_no_schema_def)

lemma ex_raising_cols:
  "expected_cols (with_model ex_model_raising) ex_model_raising = Some [''num_words'', ''is_bold'']"
  by (simp add: expected_cols_def with_model_def ex_model_raising_def)

lemma ex_raising:
  "predict ex_model_raising [''num_words'', ''is_bold'']
     (map (\<lambda>item. map (cell_of ex_input item) [''num_words'', ''is_bold'']) ex_input) = Inl LibraryError"
  by (simp add: ex_model_raising_def)

lemma ex_bad_class_cols:
  "expected_cols (with_model ex_model_bad_class) ex_model_bad_class = Some [''num_words'', ''is_bold'']"
  by (simp add: expected_cols_def with_model_def ex_model_bad_class_def)

lemma ex_bad_class:
  "predict ex_model_bad_class [''num_words'', ''is_bold'']
     (map (\<lambda>item. map (cell_of ex_input item) [''num_words'', ''is_bold'']) ex_input) = Inr [7, 7]"
  by (simp add: ex_model_bad_class_def ex_input_def)

lemma ex_bad_class_decode:
  "decode_predictions (with_model ex_model_bad_class) [7, 7] = Inl IndexError"
  by (simp add: decode_predictions_def with_model_def class_name_def)

lemma fallback_on_failure:
  "the_heading_model self = Some m \<Longrightarrow> truth_test_raises m = None \<Longrightarrow>
   model_prediction self m input_data = Inl e \<Longrightarrow>
   predict_headings_with_model self input_data = Inr (predict_headings_simple input_data)"
  by (simp add: predict_headings_with_model_def)

text \<open>
  Inside the \<open>try\<close> every failure ends in the heuristic prediction: when the truth
  test of the model returns, \<open>predict_headings_with_model\<close> returns the prediction of
  \<open>predict_headings_simple\<close> for any exception of the body, and in particular when
  the model has no feature schema, when inference raises, and when the predictions
  cannot be decoded.
\<close>

lemma failure_inside_try_falls_back:
  assumes "the_heading_model self = Some m" and "truth_test_raises m = None"
  shows "(model_prediction self m input_data = Inl e \<longrightarrow>
            predict_headings_with_model self input_data = Inr (predict_headings_simple input_data))
       \<and> (expected_cols self m = None \<longrightarrow>
            predict_headings_with_model self input_data = Inr (predict_headings_simple input_data))
       \<and> (expected_cols self m = Some cols
            \<and> predict m cols (map (\<lambda>item. map (cell_of input_data item) cols) input_data) = Inl e1
          \<longrightarrow> predict_headings_with_model self input_data = Inr (predict_headings_simple input_data))
       \<and> (expected_cols self m = Some cols
            \<and> predict m cols (map (\<lambda>item. map (cell_of input_data item) cols) input_data) = Inr predictions
            \<and> decode_predictions self predictions = Inl e2
          \<longrightarrow> predict_headings_with_model self input_data = Inr (predict_headings_simple input_data))"
proof -
  have a: "predict_headings_with_model self input_data = Inr (predict_headings_simple input_data)"
    if "model_prediction self m input_data = Inl x" for x
    using assms that by (rule fallback_on_failure)
  have b: "\<exists>x. model_prediction self m input_data = Inl x" if "expected_cols self m = None"
    using that by (simp add: model_prediction_def)
  have c: "\<exists>x. model_prediction self m input_data = Inl x"
    if "expected_cols self m = Some cols"
      and "predict m cols (map (\<lambda>item. map (cell_of input_data item) cols) input_data) = Inl e1"
    using that by (simp add: model_prediction_def)
  have d: "\<exists>x. model_prediction self m input_data = Inl x"
    if "expected_cols self m = Some cols"
      and "predict m cols (map (\<lambda>item. map (cell_of input_data item) cols) input_data) = Inr predictions"
      and "decode_predictions self predictions = Inl e2"
    using that by (simp add: model_prediction_def)
  from a b c d show ?thesis by blast
qed

lemma failure_inside_try_samples:
  "predict_headings_with_model (with_model ex_model_no_schema) ex_input = Inr (predict_headings_simple ex_input)
   \<and> predict_headings_with_model (with_model ex_model_raising) ex_input = Inr (predict_headings_simple ex_input)
   \<and> predict_headings_with_model (with_model ex_model_bad_class) ex_input = Inr (predict_headings_simple ex_input)"
proof (intro conjI)
  have "the_heading_model (with_model ex_model_no_schema) = Some ex_model_no_schema"
    and "truth_test_raises ex_model_no_schema = None"
    by (simp_all add: with_model_def ex_model_no_schema_def)
  from failure_inside_try_falls_back [OF this, of ex_input] ex_no_schema
  show "predict_headings_with_model (with_model ex_model_no_schema) ex_input = Inr (predict_headings_simple ex_input)"
    by blast
next
  have "the_heading_model (with_model ex_model_raising) = Some ex_model_raising"
    and "truth_test_raises ex_model_raising = None"
    by (simp_all add: with_model_def ex_model_raising_def)
  from failure_inside_try_falls_back [OF this, of ex_input _ "[''num_words'', ''is_bold'']" LibraryError]
    ex_raising_cols ex_raising
  show "predict_headings_with_model (with_model ex_model_raising) ex_input = Inr (predict_headings_simple ex_input)"
    by blast
next
  have "the_heading_model (with_model ex_model_bad_class) = Some ex_model_bad_class"
    and "truth_test_raises ex_model_bad_class = None"
    by (simp_all add: with_model_def ex_model_bad_class_def)
  from failure_inside_try_falls_back [OF this, of ex_input _ "[''num_words'', ''is_bold'']" _ "[7, 7]" IndexError]
    ex_bad_class_cols ex_bad_class ex_bad_class_decode
  show "predict_headings_with_model (with_model ex_model_bad_class) ex_input = Inr (predict_headings_simple ex_input)"
    by blast
qed

text \<open>
  Claim C7. The code at a failing input. The processor holds an ensemble that was never
  fitted. The test \<open>if not self.heading_model\<close> stands before the \<open>try\<close>, and the
  \<open>AttributeError\<close> it raises reaches the caller: \<open>predict_headings_with_model\<close>
  does not return the prediction of \<open>predict_headings_simple\<close>, which it returns for
  the same input when the processor holds no model.
\<close>

theorem truth_test_raises_to_caller:
  "the_heading_model (with_model ex_model_unfitted) = Some ex_model_unfitted
   \<and> truth_test_raises ex_model_unfitted = Some AttributeError
   \<and> predict_headings_with_model (with_model ex_model_unfitted) ex_input = Inl AttributeError
   \<and> predict_headings_with_model (with_model ex_model_unfitted) ex_input
       \<noteq> Inr (predict_headings_simple ex_input)
   \<and> predict_headings_with_model ex_processor ex_input = Inr (predict_headings_simple ex_input)"
  by (simp add: predict_headings_with_model_def with_model_def ex_model_unfitted_def ex_processor_def)

lemma extract_features_with_model:
  "extract_features_from_pdf ex_open (with_model m) path = extract_features_from_pdf ex_open ex_processor path"
proof -
  have s: "stop_words (with_model m) = stop_words ex_processor"
    by (simp add: with_model_def ex_processor_def)
  show ?thesis unfolding extract_features_from_pdf_def s ..
qed

lemma ex_underline_simple:
  "predict_headings_simple [ex_underline_item] =
     \<lparr>title = [], outline = [\<lparr>entry_level = ''H1'', entry_text = ''Plain underlined'', entry_page = 1\<rparr>]\<rparr>"
  by (simp add: predict_headings_simple_def py_sorted_def ex_underline_item_def is_title_block_def
      heading_level_def make_entry_def py_strip_def)

lemma ex_underline_model_fails:
  "model_prediction (with_model ex_model_raising) ex_model_raising [ex_underline_item] = Inl LibraryError"
  by (simp add: model_prediction_def ex_raising_cols) (simp add: ex_model_raising_def)

lemma ex_underline_sections:
  "extract_sections_with_content ex_open (with_model ex_model_raising) ''underline.pdf''
     [\<lparr>entry_level = ''H1'', entry_text = ''Plain underlined'', entry_page = 1\<rparr>] = Inr []"
  by (simp add: extract_sections_with_content_def ex_open_def ex_underline_pdf_def
      extract_text_for_heading_def load_page_def ex_underline_block_def line_text_of_def
      ex_span_def mentions_def py_lower_def py_isupper_def py_strip_def)

lemma ex_underline_process:
  "process_pdf ex_open ''2024-01-01T00:00:00'' (with_model ex_model_raising) ''underline.pdf'' =
     Inr \<lparr>idx_title = [],
          idx_outline = [\<lparr>entry_level = ''H1'', entry_text = ''Plain underlined'', entry_page = 1\<rparr>],
          idx_metadata = \<lparr>filename = ''underline.pdf'', processed_at = ''2024-01-01T00:00:00'',
             total_blocks = 1, total_sections = 0, model_used = ''pretrained''\<rparr>,
          idx_sections = [], full_text = [], full_text_embedding = [1]\<rparr>"
proof -
  have f: "extract_features_from_pdf ex_open (with_model ex_model_raising) ''underline.pdf'' = Inr [ex_underline_item]"
    by (simp only: extract_features_with_model ex_underline_features ex_underline_item_def)
  have p: "predict_headings_with_model (with_model ex_model_raising) [ex_underline_item]
      = Inr (predict_headings_simple [ex_underline_item])"
    by (rule fallback_on_failure[OF _ _ ex_underline_model_fails])
       (simp_all add: with_model_def ex_model_raising_def)
  have t: "heading_model_truth (with_model ex_model_raising) = Inr True"
    by (simp add: heading_model_truth_def with_model_def ex_model_raising_def)
  show ?thesis
    by (simp add: process_pdf_def f p t ex_underline_simple ex_underline_sections wrap_exception_def)
       (simp add: with_model_def basename_def)
qed

text \<open>With the ensemble that was never fitted the exception of the truth test ends the
  processing of the document.\<close>

lemma unfitted_model_fails_document:
  "process_pdf ex_open ''2024-01-01T00:00:00'' (with_model ex_model_unfitted) ''underline.pdf''
     = Inl (WrappedException ''Error processing PDF underline.pdf: '' AttributeError)"
proof -
  have f: "extract_features_from_pdf ex_open (with_model ex_model_unfitted) ''underline.pdf'' = Inr [ex_underline_item]"
    by (simp only: extract_features_with_model ex_underline_features ex_underline_item_def)
  have p: "predict_headings_with_model (with_model ex_model_unfitted) [ex_underline_item] = Inl AttributeError"
    by (simp add: predict_headings_with_model_def with_model_def ex_model_unfitted_def)
  show ?thesis by (simp add: process_pdf_def f p wrap_exception_def)
qed

text \<open>
  Claim C2, amended. In every index \<open>process_pdf\<close> returns, \<open>model_used\<close> is
  \<open>pretrained\<close> exactly when the processor holds a heading model and \<open>heuristic\<close>
  exactly when it holds none, whichever strategy produced the outline.
\<close>

theorem model_used_reports_loaded_model:
  assumes "process_pdf fitz_open now self pdf_path = Inr idx"
  shows "model_used (idx_metadata idx)
           = (if the_heading_model self = None then ''heuristic'' else ''pretrained'')"
proof -
  from assms obtain truth where t: "heading_model_truth self = Inr truth"
    and m: "model_used (idx_metadata idx) = (if truth then ''pretrained'' else ''heuristic'')"
    by (auto simp: process_pdf_def wrap_exception_def Let_def split: sum.splits)
  from t have "truth = (the_heading_model self \<noteq> None)"
    by (auto simp: heading_model_truth_def split: option.splits)
  with m show ?thesis by simp
qed

theorem model_used_reports_loaded_model_witness:
  "model_used (idx_metadata
      \<lparr>idx_title = [],
          idx_outline = [\<lparr>entry_level = ''H1'', entry_text = ''Plain underlined'', entry_page = 1\<rparr>],
          idx_metadata = \<lparr>filename = ''underline.pdf'', processed_at = ''2024-01-01T00:00:00'',
             total_blocks = 1, total_sections = 0, model_used = ''pretrained''\<rparr>,
          idx_sections = [], full_text = [], full_text_embedding = [1]\<rparr>)
     = (if the_heading_model (with_model ex_model_raising) = None then ''heuristic'' else ''pretrained'')"
  by (rule model_used_reports_loaded_model [OF ex_underline_process])

text \<open>
  Claim C2 as stated fails: the model strategy raises on this document, the outline is
  the one of the heuristic strategy, and \<open>model_used\<close> is \<open>pretrained\<close>.
\<close>

theorem model_used_pretrained_after_fallback:
  "extract_features_from_pdf ex_open (with_model ex_model_raising) ''underline.pdf'' = Inr [ex_underline_item]
   \<and> model_prediction (with_model ex_model_raising) ex_model_raising [ex_underline_item] = Inl LibraryError
   \<and> (\<exists>idx. process_pdf ex_open ''2024-01-01T00:00:00'' (with_model ex_model_raising) ''underline.pdf'' = Inr idx
        \<and> idx_outline idx = outline (predict_headings_simple [ex_underline_item])
        \<and> model_used (idx_metadata idx) = ''pretrained''
        \<and> model_used (idx_metadata idx) \<noteq> ''heuristic'')"
proof (intro conjI)
  show "extract_features_from_pdf ex_open (with_model ex_model_raising) ''underline.pdf'' = Inr [ex_underline_item]"
    by (simp only: extract_features_with_model ex_underline_features ex_underline_item_def)
  show "model_prediction (with_model ex_model_raising) ex_model_raising [ex_underline_item] = Inl LibraryError"
    by (rule ex_underline_model_fails)
  show "\<exists>idx. process_pdf ex_open ''2024-01-01T00:00:00'' (with_model ex_model_raising) ''underline.pdf'' = Inr idx
        \<and> idx_outline idx = outline (predict_headings_simple [ex_underline_item])
        \<and> model_used (idx_metadata idx) = ''pretrained''
        \<and> model_used (idx_metadata idx) \<noteq> ''heuristic''"
    by (simp add: ex_underline_process ex_underline_simple)
qed

lemma scan_lines_append:
  "scan_lines h nxt (xs @ ys) st =
     (case scan_lines h nxt xs st of Return r \<Rightarrow> Return r | Next st' \<Rightarrow> scan_lines h nxt ys st')"
proof (induction xs arbitrary: st)
  case Nil
  then show ?case by simp
next
  case (Cons l xs)
  obtain ft found where st: "st = (ft, found)" by (cases st)
  show ?case unfolding st by (simp add: Let_def Cons.IH)
qed

lemma scan_blocks_lines:
  "scan_blocks h nxt bs st = scan_lines h nxt (concat (map lines bs)) st"
proof (induction bs arbitrary: st)
  case Nil
  then show ?case by simp
next
  case (Cons b bs)
  show ?case by (simp add: scan_lines_append Cons.IH split: flow.splits)
qed

lemma scan_pages_lines:
  assumes "\<forall>n\<in>set ns. 0 \<le> n \<and> n < int (length doc)"
  shows "scan_pages doc h nxt ns st =
     Inr (finish (scan_lines h nxt (concat (map (\<lambda>n. page_lines (doc ! nat n)) ns)) st))"
  using assms
proof (induction ns arbitrary: st)
  case Nil
  then show ?case by (simp add: finish_def)
next
  case (Cons n ns)
  then have l: "load_page doc n = Inr (doc ! nat n)" by (simp add: load_page_def)
  from Cons.prems have r: "\<forall>n\<in>set ns. 0 \<le> n \<and> n < int (length doc)" by simp
  show ?case
  proof (cases "scan_lines h nxt (page_lines (doc ! nat n)) st")
    case (Return r')
    then show ?thesis
      by (simp add: l scan_blocks_lines page_lines_def[symmetric] scan_lines_append finish_def)
  next
    case (Next st')
    then show ?thesis
      using Cons.IH[OF r, of st']
      by (simp add: l scan_blocks_lines page_lines_def[symmetric] scan_lines_append)
  qed
qed

lemma scan_found:
  "finish (scan_lines h nxt ls (ft, True)) =
     py_strip (ft @ joined_text (takeWhile (\<lambda>l. \<not> next_mentions nxt l) ls))"
proof (induction ls arbitrary: ft)
  case Nil
  then show ?case by (simp add: finish_def joined_text_def)
next
  case (Cons l ls)
  show ?case
  proof (cases "next_mentions nxt l")
    case True
    then show ?thesis
      by (auto simp: next_mentions_def finish_def joined_text_def Let_def split: option.splits)
  next
    case False
    then have "scan_lines h nxt (l # ls) (ft, True) = scan_lines h nxt ls (ft @ line_text_of l @ '' '', True)"
      by (auto simp: next_mentions_def Let_def split: option.splits)
    with False Cons.IH[of "ft @ line_text_of l @ '' ''"] show ?thesis
      by (simp add: joined_text_def)
  qed
qed

lemma scan_not_found:
  "finish (scan_lines h nxt ls (ft, False)) = py_strip (ft @ joined_text (body_lines h nxt ls))"
proof (induction ls)
  case Nil
  then show ?case by (simp add: finish_def joined_text_def body_lines_def)
next
  case (Cons l ls)
  show ?case
  proof (cases "mentions h (line_text_of l)")
    case True
    then have "scan_lines h nxt (l # ls) (ft, False) = scan_lines h nxt ls (ft, True)"
      by (simp add: Let_def)
    with True show ?thesis by (simp add: scan_found body_lines_def)
  next
    case False
    then have "scan_lines h nxt (l # ls) (ft, False) = scan_lines h nxt ls (ft, False)"
      by (simp add: Let_def)
    with False Cons.IH show ?thesis by (simp add: body_lines_def)
  qed
qed

lemma extract_text_eq:
  assumes "1 \<le> entry_page heading" and "end_page_of doc nxt < int (length doc)"
  shows "extract_text_for_heading doc heading nxt =
     Inr (section_body heading nxt (window_lines doc (entry_page heading - 1) (end_page_of doc nxt)))"
proof -
  have e: "(case nxt of Some n \<Rightarrow> entry_page n - 1 | None \<Rightarrow> int (length doc) - 1) = end_page_of doc nxt"
    by (simp add: end_page_of_def)
  have "\<forall>n\<in>set [entry_page heading - 1..end_page_of doc nxt]. 0 \<le> n \<and> n < int (length doc)"
    using assms by auto
  from scan_pages_lines[OF this] show ?thesis
    unfolding extract_text_for_heading_def Let_def e
    by (simp add: scan_not_found section_body_def window_lines_def)
qed

lemma body_lines_unmatched:
  "list_all (\<lambda>l. \<not> mentions h (line_text_of l)) ls \<Longrightarrow> body_lines h nxt ls = []"
  by (induction ls) (simp_all add: body_lines_def)

lemma section_body_unmatched:
  "list_all (\<lambda>l. \<not> mentions h (line_text_of l)) ls \<Longrightarrow> section_body h nxt ls = []"
  by (simp add: section_body_def body_lines_unmatched joined_text_def py_strip_def)

lemma sections_loop_skip:
  "extract_text_for_heading doc h (next_entry rest) = Inr [] \<Longrightarrow>
   sections_loop self doc (h # rest) sections = sections_loop self doc rest sections"
  by (simp add: next_entry_def Let_def)

lemma ex_window:
  "window_lines ex_two_pages 0 1 =
     [ex_line [''Preface''], ex_line [''1 INTRO'', ''DUCTION''], ex_line [''alpha''],
      ex_line [''beta''], ex_line [''2 Methods used''], ex_line [''gamma'']]"
proof -
  have "[0..1] = [0, 1::int]" by (simp add: upto.simps)
  then show ?thesis
    by (simp add: window_lines_def page_lines_def ex_two_pages_def ex_text_block_def)
qed

lemma ex_line_texts:
  "line_text_of (ex_line [''Preface'']) = ''Preface''"
  "line_text_of (ex_line [''1 INTRO'', ''DUCTION'']) = ''1 INTRODUCTION''"
  "line_text_of (ex_line [''alpha'']) = ''alpha''"
  "line_text_of (ex_line [''beta'']) = ''beta''"
  "line_text_of (ex_line [''2 Methods used'']) = ''2 Methods used''"
  "line_text_of (ex_line [''gamma'']) = ''gamma''"
  by (simp_all add: line_text_of_def ex_line_def ex_span_def)

lemma ex_lower:
  "py_lower ''Introduction'' = ''introduction''"
  "py_lower ''Methods'' = ''methods''"
  "py_lower ''Conclusion'' = ''conclusion''"
  "py_lower ''Preface'' = ''preface''"
  "py_lower ''1 INTRODUCTION'' = ''1 introduction''"
  "py_lower ''alpha'' = ''alpha''"
  "py_lower ''beta'' = ''beta''"
  "py_lower ''2 Methods used'' = ''2 methods used''"
  "py_lower ''gamma'' = ''gamma''"
  by code_simp+

lemma ex_intro_body:
  "section_body ex_intro (Some ex_methods) (window_lines ex_two_pages 0 1) = ''alpha beta''"
  by (simp add: ex_window section_body_def body_lines_def joined_text_def next_mentions_def
      ex_line_texts mentions_def ex_intro_def ex_methods_def ex_lower
      py_strip_def py_isspace_def)

lemma ex_missing_unmatched:
  "list_all (\<lambda>l. \<not> mentions ex_missing (line_text_of l)) (window_lines ex_two_pages 0 1)"
  by (simp add: ex_window ex_line_texts mentions_def ex_missing_def ex_lower)

text \<open>
  Claim C6. For an outline entry with a page of at least 1 whose window ends inside the
  document, \<open>extract_text_for_heading\<close> returns, without an exception, the stripped
  concatenation (each line followed by a space) of the lines of the window that come
  after the first line containing the heading's text in lower case and before the
  first of those that contains the next heading's text; the window is the lines of the
  pages from the entry's page to the next entry's page, or to the last page for the
  last entry. When no line of the window contains the heading's text, the content is
  empty and \<open>extract_sections_with_content\<close> goes on to the next entry without adding
  a section.
\<close>

theorem segment_between_headings:
  assumes "1 \<le> entry_page heading"
    and "end_page_of doc (next_entry rest) < int (length doc)"
  shows "extract_text_for_heading doc heading (next_entry rest) =
           Inr (section_body heading (next_entry rest)
                  (window_lines doc (entry_page heading - 1) (end_page_of doc (next_entry rest))))
       \<and> (list_all (\<lambda>l. \<not> mentions heading (line_text_of l))
             (window_lines doc (entry_page heading - 1) (end_page_of doc (next_entry rest)))
          \<longrightarrow> extract_text_for_heading doc heading (next_entry rest) = Inr []
              \<and> sections_loop self doc (heading # rest) sections = sections_loop self doc rest sections)"
proof -
  let ?w = "window_lines doc (entry_page heading - 1) (end_page_of doc (next_entry rest))"
  have e: "extract_text_for_heading doc heading (next_entry rest) =
           Inr (section_body heading (next_entry rest) ?w)"
    using assms by (rule extract_text_eq)
  have "extract_text_for_heading doc heading (next_entry rest) = Inr []
      \<and> sections_loop self doc (heading # rest) sections = sections_loop self doc rest sections"
    if "list_all (\<lambda>l. \<not> mentions heading (line_text_of l)) ?w"
  proof -
    from that have "section_body heading (next_entry rest) ?w = []" by (rule section_body_unmatched)
    with e have "extract_text_for_heading doc heading (next_entry rest) = Inr []" by simp
    then show ?thesis using sections_loop_skip by blast
  qed
  with e show ?thesis by blast
qed

theorem segment_between_headings_witness:
  "extract_text_for_heading ex_two_pages ex_intro (Some ex_methods) = Inr ''alpha beta''
   \<and> extract_text_for_heading ex_two_pages ex_missing (Some ex_methods) = Inr []
   \<and> sections_loop ex_processor ex_two_pages [ex_missing, ex_methods] []
       = sections_loop ex_processor ex_two_pages [ex_methods] []"
proof -
  have n: "next_entry [ex_methods] = Some ex_methods" by (simp add: next_entry_def)
  have p: "end_page_of ex_two_pages (Some ex_methods) = 1"
    by (simp add: end_page_of_def ex_methods_def)
  have l: "int (length ex_two_pages) = 2" by (simp add: ex_two_pages_def)
  have h2: "end_page_of ex_two_pages (next_entry [ex_methods]) < int (length ex_two_pages)"
    unfolding n p l by simp
  have i1: "1 \<le> entry_page ex_intro" and i0: "entry_page ex_intro - 1 = 0"
    by (simp_all add: ex_intro_def)
  have m1: "1 \<le> entry_page ex_missing" and m0: "entry_page ex_missing - 1 = 0"
    by (simp_all add: ex_missing_def)
  have "extract_text_for_heading ex_two_pages ex_intro (next_entry [ex_methods]) =
           Inr (section_body ex_intro (next_entry [ex_methods])
                  (window_lines ex_two_pages (entry_page ex_intro - 1)
                     (end_page_of ex_two_pages (next_entry [ex_methods]))))"
    using segment_between_headings [OF i1 h2] by (rule conjunct1)
  then have a: "extract_text_for_heading ex_two_pages ex_intro (Some ex_methods) = Inr ''alpha beta''"
    unfolding n p i0 ex_intro_body .
  have "list_all (\<lambda>l. \<not> mentions ex_missing (line_text_of l))
          (window_lines ex_two_pages (entry_page ex_missing - 1)
             (end_page_of ex_two_pages (next_entry [ex_methods])))"
    unfolding n p m0 by (rule ex_missing_unmatched)
  with segment_between_headings [OF m1 h2, of ex_processor "[]"]
  have "extract_text_for_heading ex_two_pages ex_missing (next_entry [ex_methods]) = Inr []
      \<and> sections_loop ex_processor ex_two_pages (ex_missing # [ex_methods]) []
          = sections_loop ex_processor ex_two_pages [ex_methods] []"
    by blast
  then have b: "extract_text_for_heading ex_two_pages ex_missing (Some ex_methods) = Inr []
      \<and> sections_loop ex_processor ex_two_pages [ex_missing, ex_methods] []
          = sections_loop ex_processor ex_two_pages [ex_methods] []"
    unfolding n .
  from a b show ?thesis by (rule conjI)
qed

end
